theory Spec2Isabelle
  imports Main "HOL-Library.AList" "HOL-Library.List_Lexorder"
begin

section \<open>Text and bytes\<close>

text \<open>
  A Python \<open>str\<close> is a sequence of Unicode code points and a \<open>bytes\<close> object a
  sequence of byte values; both are lists of naturals here. With
  \<open>HOL-Library.List_Lexorder\<close> the order on \<open>py_str\<close> is the lexicographic order by
  code point, a proper prefix being smaller: the order of Python's \<open>str\<close>.
\<close>

type_synonym py_str = "nat list"
type_synonym bytes = "nat list"

definition lit :: "string \<Rightarrow> py_str" where
  \<comment> \<open>an ASCII literal of the source, as code points (and, encoded, as bytes)\<close>
  "lit s = map of_char s"

definition py_isspace :: "nat \<Rightarrow> bool" where
  \<comment> \<open>the characters \<open>str.strip()\<close> removes: those with \<open>str.isspace()\<close>\<close>
  "py_isspace c \<longleftrightarrow>
     (9 \<le> c \<and> c \<le> 13) \<or> (28 \<le> c \<and> c \<le> 32) \<or> c = 133 \<or> c = 160 \<or> c = 5760 \<or>
     (8192 \<le> c \<and> c \<le> 8202) \<or> c = 8232 \<or> c = 8233 \<or> c = 8239 \<or> c = 8287 \<or> c = 12288"

definition py_strip :: "py_str \<Rightarrow> py_str" where
  \<comment> \<open>\<open>s.strip()\<close>\<close>
  "py_strip s = rev (dropWhile py_isspace (rev (dropWhile py_isspace s)))"

definition is_cont :: "nat \<Rightarrow> bool" where
  "is_cont b \<longleftrightarrow> 128 \<le> b \<and> b \<le> 191"

fun utf8_decode :: "bytes \<Rightarrow> py_str option" where
  \<comment> \<open>\<open>b.decode()\<close>: strict UTF-8; \<open>None\<close> stands for \<open>UnicodeDecodeError\<close>\<close>
  "utf8_decode [] = Some []"
| "utf8_decode (b # bs) =
     (if b < 128 then map_option (Cons b) (utf8_decode bs)
      else if 194 \<le> b \<and> b \<le> 223 then
        (case bs of
           c1 # r \<Rightarrow>
             if is_cont c1
             then map_option (Cons ((b - 192) * 64 + (c1 - 128))) (utf8_decode r)
             else None
         | _ \<Rightarrow> None)
      else if 224 \<le> b \<and> b \<le> 239 then
        (case bs of
           c1 # c2 # r \<Rightarrow>
             (let cp = (b - 224) * 4096 + (c1 - 128) * 64 + (c2 - 128)
              in if is_cont c1 \<and> is_cont c2 \<and> 2048 \<le> cp \<and> \<not> (55296 \<le> cp \<and> cp \<le> 57343)
                 then map_option (Cons cp) (utf8_decode r)
                 else None)
         | _ \<Rightarrow> None)
      else if 240 \<le> b \<and> b \<le> 244 then
        (case bs of
           c1 # c2 # c3 # r \<Rightarrow>
             (let cp = (b - 240) * 262144 + (c1 - 128) * 4096 + (c2 - 128) * 64 + (c3 - 128)
              in if is_cont c1 \<and> is_cont c2 \<and> is_cont c3 \<and> 65536 \<le> cp \<and> cp \<le> 1114111
                 then map_option (Cons cp) (utf8_decode r)
                 else None)
         | _ \<Rightarrow> None)
      else None)"

fun utf8_encode :: "py_str \<Rightarrow> bytes option" where
  \<comment> \<open>\<open>s.encode()\<close>: UTF-8; \<open>None\<close> stands for \<open>UnicodeEncodeError\<close> (a surrogate)\<close>
  "utf8_encode [] = Some []"
| "utf8_encode (c # cs) =
     (if c < 128 then map_option (Cons c) (utf8_encode cs)
      else if c < 2048 then
        map_option (append [192 + c div 64, 128 + c mod 64]) (utf8_encode cs)
      else if c < 65536 then
        (if 55296 \<le> c \<and> c \<le> 57343 then None
         else map_option
                (append [224 + c div 4096, 128 + (c div 64) mod 64, 128 + c mod 64])
                (utf8_encode cs))
      else if c \<le> 1114111 then
        map_option
          (append [240 + c div 262144, 128 + (c div 4096) mod 64,
                   128 + (c div 64) mod 64, 128 + c mod 64])
          (utf8_encode cs)
      else None)"

section \<open>Testcases, process results, execution results\<close>

text \<open>
  The archive is what \<open>umsgpack.unpack\<close> returns: a dict (in iteration order, its keys
  pairwise different) from identifiers to dicts. Keys are \<open>str\<close> or \<open>bytes\<close>; a field
  holds a \<open>str\<close>, a \<open>bytes\<close>, \<open>None\<close> (msgpack nil) or some other scalar, of which an
  integer is the representative.
\<close>

datatype blob = Str py_str | Bytes bytes

datatype pyval = Blob blob | PyNone | PyInt int

type_synonym entry = "blob \<rightharpoonup> pyval"
type_synonym archive = "(blob \<times> entry) list"

text \<open>
  A loaded testcase: the dict \<open>{"input": ..., "output": ...}\<close> of \<open>load_testcases\<close>.
  The loader decodes every \<open>bytes\<close>, so a field of a loaded testcase is a \<open>str\<close>,
  \<open>None\<close> or another scalar.
\<close>

datatype tcval = Text py_str | NoneVal | IntVal int

record testcase =
  tc_input :: tcval
  tc_output :: tcval

type_synonym testcases = "(py_str \<times> testcase) list"

datatype exn =
  AttributeError | UnicodeDecodeError | UnicodeEncodeError | TimeoutExpired | OSError
  | UnpackException | ValueError

text \<open>The \<open>CompletedProcess\<close> of \<open>subprocess.run\<close>; a run that raises is \<open>Inl\<close>.\<close>

record completed =
  returncode :: int
  stdout :: bytes
  stderr :: bytes

type_synonym proc_result = "exn + completed"

datatype verdict = AC | WA

text \<open>The cause tag: the strings \<open>""\<close>, \<open>"TLE"\<close>, \<open>"ERR"\<close> and \<open>"RE"\<close>.\<close>

datatype cause = NoCause | TLE | ERR | RE

text \<open>
  The dict \<open>run_test\<close> returns. Its \<open>"time"\<close> entry, a difference of two wall-clock
  readings, is left out.
\<close>

record exec_result =
  verdict :: verdict
  cause :: cause
  output_str :: py_str
  expected :: py_str

section \<open>The execution engine: \<open>run_test\<close>\<close>

definition encode_val :: "tcval \<Rightarrow> exn + bytes" where
  \<comment> \<open>\<open>tc["input"].encode()\<close>: \<open>None\<close> and numbers have no such method\<close>
  "encode_val v =
     (case v of
        Text s \<Rightarrow> (case utf8_encode s of None \<Rightarrow> Inl UnicodeEncodeError | Some b \<Rightarrow> Inr b)
      | _ \<Rightarrow> Inl AttributeError)"

definition strip_val :: "tcval \<Rightarrow> exn + py_str" where
  \<comment> \<open>\<open>tc["output"].strip()\<close>: \<open>None\<close> and numbers have no such method\<close>
  "strip_val v = (case v of Text s \<Rightarrow> Inr (py_strip s) | _ \<Rightarrow> Inl AttributeError)"

text \<open>
  The \<open>try\<close> block of \<open>run_test\<close> with its two handlers: the values of \<open>proc\<close>,
  \<open>output\<close> and \<open>cause\<close> when control leaves it. \<open>exec\<close> is
  \<open>subprocess.run([EXECUTABLE], input=..., timeout=TIME_LIMIT)\<close>.
\<close>

definition try_block :: "(bytes \<Rightarrow> proc_result) \<Rightarrow> testcase \<Rightarrow> completed option \<times> py_str \<times> cause" where
  "try_block exec t =
     (case encode_val (tc_input t) of
        Inl e \<Rightarrow> (None, [], ERR)
      | Inr inp \<Rightarrow>
          (case exec inp of
             Inl TimeoutExpired \<Rightarrow> (None, [], TLE)
           | Inl e \<Rightarrow> (None, [], ERR)
           | Inr proc \<Rightarrow>
               (case utf8_decode (stdout proc) of
                  None \<Rightarrow> (Some proc, [], ERR)
                | Some s \<Rightarrow> (Some proc, py_strip s, NoCause))))"

definition runtime_error :: "completed option \<Rightarrow> cause \<Rightarrow> exn + cause" where
  \<comment> \<open>\<open>if proc and proc.returncode != 0 and not cause\<close>: the new cause, once
      \<open>proc.stderr.decode()\<close> has been printed\<close>
  "runtime_error proc c =
     (case proc of
        None \<Rightarrow> Inr c
      | Some p \<Rightarrow>
          if returncode p \<noteq> 0 \<and> c = NoCause
          then (case utf8_decode (stderr p) of None \<Rightarrow> Inl UnicodeDecodeError | Some _ \<Rightarrow> Inr RE)
          else Inr c)"

definition run_test :: "(bytes \<Rightarrow> proc_result) \<Rightarrow> testcase \<Rightarrow> exn + exec_result" where
  "run_test exec t =
     (case try_block exec t of
        (proc, out, c) \<Rightarrow>
          (case strip_val (tc_output t) of
             Inl e \<Rightarrow> Inl e
           | Inr exp \<Rightarrow>
               (case runtime_error proc c of
                  Inl e \<Rightarrow> Inl e
                | Inr c' \<Rightarrow>
                    Inr \<lparr>verdict = (if out = exp then AC else WA), cause = c',
                         output_str = out, expected = exp\<rparr>)))"

section \<open>The environment and the globals\<close>

text \<open>
  What the harness reads from outside, as functions of the paths and inputs it passes:
  \<^item> \<open>path_of\<close>: \<open>Path(s)\<close>, a path in \<open>pathlib\<close>'s normal form, written as the string
    \<open>str(Path(s))\<close>;
  \<^item> \<open>path_exists\<close>: \<open>Path.exists()\<close>;
  \<^item> \<open>default_tc\<close>: the archive path derived from the source path,
    \<open>Path.home() / testcases_dir / source_path.with_suffix(".tc").name\<close>; \<open>with_suffix\<close>
    raises \<open>ValueError\<close> for a path with an empty name, such as \<open>.\<close> or \<open>/\<close>;
  \<^item> \<open>unpack_file\<close>: \<open>open(TC_FILE, "rb")\<close> and \<open>umsgpack.unpack\<close>;
  \<^item> \<open>read_text\<close>: \<open>open(path, "r")\<close> and \<open>read()\<close>;
  \<^item> \<open>run_compiler\<close>: \<open>subprocess.run(["g++", ..., SOURCE, "-o", EXECUTABLE])\<close>;
  \<^item> \<open>run_executable\<close>: \<open>subprocess.run([EXECUTABLE], input=..., timeout=TIME_LIMIT)\<close>.

  Console output is not modelled, nor are
  \<open>TIME_LIMIT\<close> (it only reaches \<open>subprocess.run\<close>) and \<open>VERBOSE\<close> (it only prints).
  A run starts from the namespace of a command line that \<open>argparse\<close> accepted, and
  the executable answers equal inputs alike within one run.
\<close>

record world =
  path_of :: "py_str \<Rightarrow> py_str"
  path_exists :: "py_str \<Rightarrow> bool"
  default_tc :: "py_str \<Rightarrow> exn + py_str"
  unpack_file :: "py_str \<Rightarrow> exn + archive"
  read_text :: "py_str \<Rightarrow> exn + py_str"
  run_compiler :: "py_str \<Rightarrow> py_str \<Rightarrow> proc_result"
  run_executable :: "py_str \<Rightarrow> bytes \<Rightarrow> proc_result"

text \<open>The namespace \<open>parser.parse_args()\<close> returns.\<close>

record args =
  source :: py_str
  output_bin :: py_str
  tc :: "py_str option"
  txt_input :: "py_str option"
  txt_output :: "py_str option"

text \<open>The module's globals after \<open>parse_args\<close>.\<close>

record config =
  SOURCE :: py_str
  EXECUTABLE :: py_str
  TC_FILE :: "py_str option"
  TXT_INPUT_FILE :: "py_str option"
  TXT_OUTPUT_FILE :: "py_str option"

text \<open>
  How a call ends: it returns, \<open>sys.exit(n)\<close> (\<open>parser.error\<close> is \<open>sys.exit(2)\<close>), or
  an exception nothing catches. The interpreter turns these into the exit codes 0, \<open>n\<close>
  and 1.
\<close>

datatype ending = Returned | SystemExit nat | Uncaught exn

fun exit_code :: "ending \<Rightarrow> nat" where
  "exit_code Returned = 0"
| "exit_code (SystemExit n) = n"
| "exit_code (Uncaught e) = 1"

definition truthy :: "py_str option \<Rightarrow> bool" where
  \<comment> \<open>the truth value of an optional string argument: \<open>None\<close> and \<open>""\<close> are false\<close>
  "truthy x = (case x of None \<Rightarrow> False | Some s \<Rightarrow> s \<noteq> [])"

definition resolve_tc :: "world \<Rightarrow> args \<Rightarrow> exn + py_str" where
  \<comment> \<open>the block \<open># resolve testcase file\<close>: the value of \<open>tc_file\<close>\<close>
  "resolve_tc w a =
     (case tc a of
        None \<Rightarrow> default_tc w (path_of w (source a))
      | Some p \<Rightarrow> if p \<noteq> [] then Inr (path_of w p) else default_tc w (path_of w (source a)))"

definition parse_args :: "world \<Rightarrow> args \<Rightarrow> ending + config" where
  "parse_args w a =
     (if \<not> path_exists w (path_of w (source a)) then Inl (SystemExit 2)
      else
        (case resolve_tc w a of
           Inl e \<Rightarrow> Inl (Uncaught e)
         | Inr tc_file \<Rightarrow>
             (let g = \<lparr>SOURCE = path_of w (source a), EXECUTABLE = output_bin a,
                       TC_FILE = Some tc_file,
                       TXT_INPUT_FILE = txt_input a, TXT_OUTPUT_FILE = txt_output a\<rparr>
              in if truthy (txt_input a) \<or> truthy (txt_output a)
                 then (if \<not> (truthy (txt_input a) \<and> truthy (txt_output a))
                       then Inl (SystemExit 2)
                       else Inr (g\<lparr>TC_FILE := None\<rparr>))
                 else Inr g)))"

section \<open>The build step: \<open>compile_code\<close>\<close>

definition compile_code :: "world \<Rightarrow> config \<Rightarrow> ending" where
  "compile_code w g =
     (case run_compiler w (SOURCE g) (EXECUTABLE g) of
        Inl e \<Rightarrow> Uncaught e
      | Inr result \<Rightarrow>
          if returncode result \<noteq> 0
          then (case utf8_decode (stderr result) of
                  None \<Rightarrow> Uncaught UnicodeDecodeError
                | Some _ \<Rightarrow> SystemExit 1)
          else Returned)"

section \<open>The testcase loader: \<open>load_testcases\<close>\<close>

definition get :: "entry \<Rightarrow> blob \<Rightarrow> pyval" where
  \<comment> \<open>\<open>v.get(k)\<close>\<close>
  "get v k = (case v k of None \<Rightarrow> PyNone | Some x \<Rightarrow> x)"

fun py_bool :: "pyval \<Rightarrow> bool" where
  "py_bool (Blob (Str s)) = (s \<noteq> [])"
| "py_bool (Blob (Bytes b)) = (b \<noteq> [])"
| "py_bool PyNone = False"
| "py_bool (PyInt i) = (i \<noteq> 0)"

definition py_or :: "pyval \<Rightarrow> pyval \<Rightarrow> pyval" where
  \<comment> \<open>\<open>a or b\<close>\<close>
  "py_or a b = (if py_bool a then a else b)"

definition has_input :: "entry \<Rightarrow> bool" where
  \<comment> \<open>\<open>b"input" in v or "input" in v\<close>\<close>
  "has_input v \<longleftrightarrow> v (Bytes (lit ''input'')) \<noteq> None \<or> v (Str (lit ''input'')) \<noteq> None"

definition decode_key :: "blob \<Rightarrow> exn + py_str" where
  \<comment> \<open>\<open>k.decode() if isinstance(k, bytes) else k\<close>\<close>
  "decode_key k =
     (case k of
        Str s \<Rightarrow> Inr s
      | Bytes b \<Rightarrow> (case utf8_decode b of None \<Rightarrow> Inl UnicodeDecodeError | Some s \<Rightarrow> Inr s))"

definition decode_field :: "pyval \<Rightarrow> exn + tcval" where
  \<comment> \<open>\<open>x.decode() if isinstance(x, bytes) else x\<close>\<close>
  "decode_field x =
     (case x of
        Blob (Bytes b) \<Rightarrow>
          (case utf8_decode b of None \<Rightarrow> Inl UnicodeDecodeError | Some s \<Rightarrow> Inr (Text s))
      | Blob (Str s) \<Rightarrow> Inr (Text s)
      | PyNone \<Rightarrow> Inr NoneVal
      | PyInt i \<Rightarrow> Inr (IntVal i))"

fun decode_items :: "archive \<Rightarrow> testcases \<Rightarrow> exn + testcases" where
  \<comment> \<open>the loop \<open>for k, v in tcs.items()\<close> over the dict \<open>decoded\<close>\<close>
  "decode_items [] decoded = Inr decoded"
| "decode_items ((k, v) # rest) decoded =
     (if has_input v then
        (case decode_key k of
           Inl e \<Rightarrow> Inl e
         | Inr key \<Rightarrow>
             (let inp = py_or (get v (Str (lit ''input''))) (get v (Bytes (lit ''input'')));
                  out = py_or (get v (Str (lit ''output''))) (get v (Bytes (lit ''output'')))
              in case decode_field inp of
                   Inl e \<Rightarrow> Inl e
                 | Inr i \<Rightarrow>
                     (case decode_field out of
                        Inl e \<Rightarrow> Inl e
                      | Inr ou \<Rightarrow>
                          decode_items rest
                            (AList.update key \<lparr>tc_input = i, tc_output = ou\<rparr> decoded))))
      else decode_items rest decoded)"

fun split_blank :: "py_str \<Rightarrow> py_str \<Rightarrow> py_str list" where
  \<comment> \<open>\<open>s.split("\n\n")\<close> is \<open>split_blank [] s\<close>; the first argument is the piece being
      read, reversed\<close>
  "split_blank acc (a # b # cs) =
     (if a = 10 \<and> b = 10 then rev acc # split_blank [] cs
      else split_blank (a # acc) (b # cs))"
| "split_blank acc cs = [rev acc @ cs]"

fun str_nat :: "nat \<Rightarrow> py_str" where
  \<comment> \<open>\<open>str(i)\<close> for \<open>i \<ge> 0\<close>\<close>
  "str_nat n = (if n < 10 then [48 + n] else str_nat (n div 10) @ [48 + n mod 10])"

declare str_nat.simps [simp del]

fun enumerate_pairs :: "nat \<Rightarrow> (py_str \<times> py_str) list \<Rightarrow> testcases \<Rightarrow> testcases" where
  \<comment> \<open>the loop \<open>for i, (inp, out) in enumerate(zip(inputs, outputs), start=1)\<close>\<close>
  "enumerate_pairs i [] tcs = tcs"
| "enumerate_pairs i ((inp, out) # rest) tcs =
     enumerate_pairs (Suc i) rest
       (AList.update (str_nat i)
          \<lparr>tc_input = Text (py_strip inp), tc_output = Text (py_strip out)\<rparr> tcs)"

definition load_testcases :: "world \<Rightarrow> config \<Rightarrow> ending + testcases" where
  "load_testcases w g =
     (case TC_FILE g of
        Some tc_file \<Rightarrow>
          if \<not> path_exists w tc_file then Inl (SystemExit 1)
          else (case unpack_file w tc_file of
                  Inl e \<Rightarrow> Inl (Uncaught e)
                | Inr tcs \<Rightarrow>
                    (case decode_items tcs [] of
                       Inl e \<Rightarrow> Inl (Uncaught e)
                     | Inr decoded \<Rightarrow> Inr decoded))
      | None \<Rightarrow>
          (case (TXT_INPUT_FILE g, TXT_OUTPUT_FILE g) of
             (Some txt_in, Some txt_out) \<Rightarrow>
               if txt_in = [] \<or> txt_out = [] then Inl (SystemExit 1)
               else if \<not> path_exists w (path_of w txt_in) then Inl (SystemExit 1)
               else if \<not> path_exists w (path_of w txt_out) then Inl (SystemExit 1)
               else
                 (case read_text w (path_of w txt_in) of
                    Inl e \<Rightarrow> Inl (Uncaught e)
                  | Inr fin \<Rightarrow>
                      (case read_text w (path_of w txt_out) of
                         Inl e \<Rightarrow> Inl (Uncaught e)
                       | Inr fout \<Rightarrow>
                           (let inputs = split_blank [] (py_strip fin);
                                outputs = split_blank [] (py_strip fout)
                            in if length inputs \<noteq> length outputs then Inl (SystemExit 1)
                               else Inr (enumerate_pairs 1 (zip inputs outputs) []))))
           | _ \<Rightarrow> Inl (SystemExit 1)))"

text \<open>
  A well-formed archive, for the entries that have an input field: every \<open>bytes\<close> among
  the key and the input and output fields is valid UTF-8, and the identifiers differ
  once decoded.
\<close>

fun decodable :: "pyval \<Rightarrow> bool" where
  "decodable (Blob (Bytes b)) = (utf8_decode b \<noteq> None)"
| "decodable v = True"

definition runnable :: "archive \<Rightarrow> archive" where
  "runnable tcs = filter (\<lambda>(k, v). has_input v) tcs"

definition fields_decodable :: "blob \<times> entry \<Rightarrow> bool" where
  "fields_decodable kv =
     (case kv of
        (k, v) \<Rightarrow>
          (case decode_key k of Inl e \<Rightarrow> False | Inr s \<Rightarrow> True) \<and>
          decodable (get v (Str (lit ''input''))) \<and> decodable (get v (Bytes (lit ''input''))) \<and>
          decodable (get v (Str (lit ''output''))) \<and> decodable (get v (Bytes (lit ''output''))))"

definition ident :: "blob \<times> entry \<Rightarrow> exn + py_str" where
  \<comment> \<open>the identifier an entry is stored under, if its key decodes\<close>
  "ident kv = decode_key (fst kv)"

definition well_formed :: "archive \<Rightarrow> bool" where
  "well_formed tcs \<longleftrightarrow>
     list_all fields_decodable (runnable tcs) \<and>
     distinct (map ident (runnable tcs))"

text \<open>
  The conditions under which \<open>load_testcases\<close> reports an error and calls
  \<open>sys.exit(1)\<close>: the archive is missing, a text file is missing, or the two text files
  split into different numbers of cases.
\<close>

definition fatal_load :: "world \<Rightarrow> config \<Rightarrow> bool" where
  "fatal_load w g \<longleftrightarrow>
     (case TC_FILE g of
        Some tc_file \<Rightarrow> \<not> path_exists w tc_file
      | None \<Rightarrow>
          (case (TXT_INPUT_FILE g, TXT_OUTPUT_FILE g) of
             (Some txt_in, Some txt_out) \<Rightarrow>
               \<not> path_exists w (path_of w txt_in) \<or> \<not> path_exists w (path_of w txt_out) \<or>
               (case (read_text w (path_of w txt_in), read_text w (path_of w txt_out)) of
                  (Inr fin, Inr fout) \<Rightarrow>
                    length (split_blank [] (py_strip fin)) \<noteq>
                    length (split_blank [] (py_strip fout))
                | _ \<Rightarrow> False)
           | _ \<Rightarrow> False))"

section \<open>The main loop and the summary\<close>

datatype event = Compile | Execute py_str

text \<open>
  The three branches of the summary: \<open>[PASSED] All ... passed\<close>,
  \<open>[FAILED] k/n testcases failed\<close> and \<open>[FAILED] All ... failed\<close>.
\<close>

datatype overall = ALL_PASSED | SOME_FAILED | ALL_FAILED

definition overall_status :: "nat \<Rightarrow> nat \<Rightarrow> overall" where
  "overall_status passed total_n =
     (if passed = total_n then ALL_PASSED else if passed > 0 then SOME_FAILED else ALL_FAILED)"

definition py_sorted :: "testcases \<Rightarrow> testcases" where
  \<comment> \<open>\<open>sorted(testcases.items())\<close>: the keys of a dict differ, so the key decides\<close>
  "py_sorted tcs = sort_key fst tcs"

fun run_tests ::
  "(bytes \<Rightarrow> proc_result) \<Rightarrow> testcases \<Rightarrow> nat \<Rightarrow> event list \<times> (exn + nat)" where
  \<comment> \<open>the \<open>for\<close> loop of \<open>main\<close> over the sorted items, from the current \<open>passed\<close>\<close>
  "run_tests exec [] passed = ([], Inr passed)"
| "run_tests exec ((tcnum, t) # rest) passed =
     (case run_test exec t of
        Inl e \<Rightarrow> ([Execute tcnum], Inl e)
      | Inr result \<Rightarrow>
          (case run_tests exec rest (if verdict result = AC then passed + 1 else passed) of
             (evs, r) \<Rightarrow> (Execute tcnum # evs, r)))"

record run =
  events :: "event list"
  ending :: ending
  summary :: "(nat \<times> nat \<times> overall) option"

definition main :: "world \<Rightarrow> config \<Rightarrow> run" where
  "main w g =
     (case compile_code w g of
        Returned \<Rightarrow>
          (case load_testcases w g of
             Inl e \<Rightarrow> \<lparr>events = [Compile], ending = e, summary = None\<rparr>
           | Inr testcases \<Rightarrow>
               if testcases = [] then \<lparr>events = [Compile], ending = Returned, summary = None\<rparr>
               else
                 (let total_n = length testcases
                  in case run_tests (run_executable w (EXECUTABLE g)) (py_sorted testcases) 0 of
                       (evs, Inl e) \<Rightarrow>
                         \<lparr>events = Compile # evs, ending = Uncaught e, summary = None\<rparr>
                     | (evs, Inr passed) \<Rightarrow>
                         \<lparr>events = Compile # evs, ending = Returned,
                          summary = Some (passed, total_n, overall_status passed total_n)\<rparr>))
      | e \<Rightarrow> \<lparr>events = [Compile], ending = e, summary = None\<rparr>)"

definition program :: "world \<Rightarrow> args \<Rightarrow> run" where
  \<comment> \<open>\<open>parse_args(); main()\<close>\<close>
  "program w a =
     (case parse_args w a of
        Inl e \<Rightarrow> \<lparr>events = [], ending = e, summary = None\<rparr>
      | Inr g \<Rightarrow> main w g)"

section \<open>Example testcases and environments\<close>

text \<open>
  Concrete inputs at which the theorems below are evaluated. The expected output of
  \<open>tc_answer\<close> is \<open>42\<close> and a newline, that of \<open>tc_silent\<close> a lone newline.
\<close>

definition tc_answer :: testcase where
  "tc_answer = \<lparr>tc_input = Text (lit ''7''), tc_output = Text [52, 50, 10]\<rparr>"

definition tc_silent :: testcase where
  "tc_silent = \<lparr>tc_input = Text (lit ''7''), tc_output = Text [10]\<rparr>"

definition prints_answer :: "bytes \<Rightarrow> proc_result" where
  "prints_answer inp = Inr \<lparr>returncode = 0, stdout = [32, 52, 50, 10], stderr = []\<rparr>"

definition crashes_after_answer :: "bytes \<Rightarrow> proc_result" where
  "crashes_after_answer inp = Inr \<lparr>returncode = 1, stdout = [52, 50, 10], stderr = lit ''Aborted''\<rparr>"

definition prints_garbage :: "bytes \<Rightarrow> proc_result" where
  "prints_garbage inp = Inr \<lparr>returncode = 0, stdout = [255], stderr = []\<rparr>"

definition hangs :: "bytes \<Rightarrow> proc_result" where
  "hangs inp = Inl TimeoutExpired"

definition crashes_wrong :: "bytes \<Rightarrow> proc_result" where
  "crashes_wrong inp = Inr \<lparr>returncode = 139, stdout = lit ''41'', stderr = lit ''Segmentation fault''\<rparr>"

definition missing_binary :: "bytes \<Rightarrow> proc_result" where
  "missing_binary inp = Inl OSError"

definition base_world :: world where
  "base_world =
     \<lparr>path_of = (\<lambda>s. s), path_exists = (\<lambda>p. True),
      default_tc = (\<lambda>s. Inr (lit ''sol.tc'')),
      unpack_file = (\<lambda>p. Inr []), read_text = (\<lambda>p. Inr []),
      run_compiler = (\<lambda>s e. Inr \<lparr>returncode = 0, stdout = [], stderr = []\<rparr>),
      run_executable = (\<lambda>e. prints_answer)\<rparr>"

definition base_config :: config where
  "base_config =
     \<lparr>SOURCE = lit ''sol.cpp'', EXECUTABLE = lit ''./temp/main'', TC_FILE = Some (lit ''sol.tc''),
      TXT_INPUT_FILE = None, TXT_OUTPUT_FILE = None\<rparr>"

definition archive_silent :: archive where
  "archive_silent =
     [(Str (lit ''1''),
       [Str (lit ''input'') \<mapsto> Blob (Str (lit ''7'')), Str (lit ''output'') \<mapsto> Blob (Str [10])])]"

definition archive_answer :: archive where
  "archive_answer =
     [(Str (lit ''1''),
       [Str (lit ''input'') \<mapsto> Blob (Str (lit ''7'')),
        Str (lit ''output'') \<mapsto> Blob (Str [52, 50, 10])])]"

definition world_hanging :: world where
  "world_hanging =
     base_world\<lparr>unpack_file := (\<lambda>p. Inr archive_silent), run_executable := (\<lambda>e. hangs)\<rparr>"

definition world_crashing :: world where
  "world_crashing =
     base_world\<lparr>unpack_file := (\<lambda>p. Inr archive_answer),
                run_executable := (\<lambda>e. crashes_after_answer)\<rparr>"

definition archive_two :: archive where
  "archive_two =
     [(Str (lit ''1''),
       [Str (lit ''input'') \<mapsto> Blob (Str (lit ''7'')),
        Str (lit ''output'') \<mapsto> Blob (Str [52, 50, 10])]),
      (Str (lit ''2''),
       [Str (lit ''input'') \<mapsto> Blob (Str (lit ''7'')),
        Str (lit ''output'') \<mapsto> Blob (Str (lit ''43''))])]"

definition world_two :: world where
  "world_two = base_world\<lparr>unpack_file := (\<lambda>p. Inr archive_two)\<rparr>"

text \<open>
  Two text files of ten cases each: the inputs \<open>1\<close> to \<open>10\<close>, and ten times the
  output \<open>42\<close>, the cases a blank line apart.
\<close>

definition ten_inputs :: py_str where
  "ten_inputs =
     [49, 10, 10, 50, 10, 10, 51, 10, 10, 52, 10, 10, 53, 10, 10, 54, 10, 10, 55, 10, 10,
      56, 10, 10, 57, 10, 10, 49, 48, 10]"

definition ten_outputs :: py_str where
  "ten_outputs =
     [52, 50, 10, 10, 52, 50, 10, 10, 52, 50, 10, 10, 52, 50, 10, 10, 52, 50, 10, 10,
      52, 50, 10, 10, 52, 50, 10, 10, 52, 50, 10, 10, 52, 50, 10, 10, 52, 50, 10]"

definition world_text :: world where
  "world_text =
     base_world\<lparr>read_text := (\<lambda>p. if p = lit ''in.txt'' then Inr ten_inputs else Inr ten_outputs)\<rparr>"

definition text_config :: config where
  "text_config =
     \<lparr>SOURCE = lit ''sol.cpp'', EXECUTABLE = lit ''./temp/main'', TC_FILE = None,
      TXT_INPUT_FILE = Some (lit ''in.txt''), TXT_OUTPUT_FILE = Some (lit ''out.txt'')\<rparr>"

text \<open>
  An archive of three entries: one under byte keys, one that has no input field, and one
  under text keys.
\<close>

definition archive_mixed :: archive where
  "archive_mixed =
     [(Bytes (lit ''1''),
       [Bytes (lit ''input'') \<mapsto> Blob (Bytes (lit ''7'')),
        Bytes (lit ''output'') \<mapsto> Blob (Bytes [52, 50, 10])]),
      (Str (lit ''meta''), [Str (lit ''name'') \<mapsto> Blob (Str (lit ''sol''))]),
      (Str (lit ''2''),
       [Str (lit ''input'') \<mapsto> Blob (Str (lit ''7'')),
        Str (lit ''output'') \<mapsto> Blob (Str (lit ''43''))])]"

definition world_mixed :: world where
  "world_mixed = base_world\<lparr>unpack_file := (\<lambda>p. Inr archive_mixed)\<rparr>"

definition base_args :: args where
  "base_args =
     \<lparr>source = lit ''sol.cpp'', output_bin = lit ''./temp/main'', tc = None,
      txt_input = None, txt_output = None\<rparr>"

definition world_no_archive :: world where
  "world_no_archive = base_world\<lparr>path_exists := (\<lambda>p. p \<noteq> lit ''sol.tc'')\<rparr>"

definition world_no_source :: world where
  "world_no_source = base_world\<lparr>path_exists := (\<lambda>p. p \<noteq> lit ''sol.cpp'')\<rparr>"

definition world_bad_compile :: world where
  "world_bad_compile =
     base_world\<lparr>run_compiler :=
       (\<lambda>s e. Inr \<lparr>returncode = 1, stdout = [], stderr = lit ''error: expected ;''\<rparr>)\<rparr>"

definition archive_no_output :: archive where
  "archive_no_output =
     [(Str (lit ''1''), [Str (lit ''input'') \<mapsto> Blob (Str (lit ''7''))])]"

definition world_no_output :: world where
  "world_no_output = base_world\<lparr>unpack_file := (\<lambda>p. Inr archive_no_output)\<rparr>"

definition args_half_pair :: args where
  "args_half_pair = base_args\<lparr>txt_input := Some (lit ''in.txt'')\<rparr>"

definition archive_twice :: archive where
  "archive_twice =
     [(Str (lit ''1''),
       [Str (lit ''input'') \<mapsto> Blob (Str (lit ''7'')), Str (lit ''output'') \<mapsto> Blob (Str (lit ''42''))]),
      (Bytes (lit ''1''),
       [Str (lit ''input'') \<mapsto> Blob (Str (lit ''8'')), Str (lit ''output'') \<mapsto> Blob (Str (lit ''43''))])]"

definition crashes_garbled :: "bytes \<Rightarrow> proc_result" where
  "crashes_garbled inp = Inr \<lparr>returncode = 1, stdout = [], stderr = [255]\<rparr>"

text \<open>A source argument with an empty name, and a standard error that is not UTF-8.\<close>

definition world_unnamed_source :: world where
  "world_unnamed_source = base_world\<lparr>default_tc := (\<lambda>s. Inl ValueError)\<rparr>"

definition args_unnamed_source :: args where
  "args_unnamed_source = base_args\<lparr>source := lit ''.'', txt_input := Some (lit ''in.txt'')\<rparr>"


section \<open>Properties of the execution engine\<close>

lemma dropWhile_all: "\<forall>x\<in>set xs. P x \<Longrightarrow> dropWhile P (xs @ ys) = dropWhile P ys"
  by (induction xs) auto

lemma py_strip_pad:
  assumes "\<forall>c\<in>set l. py_isspace c" "\<forall>c\<in>set r. py_isspace c"
  shows "py_strip (l @ s @ r) = py_strip s"
proof -
  have a: "dropWhile py_isspace (l @ s @ r) = dropWhile py_isspace (s @ r)"
    using assms(1) by (rule dropWhile_all)
  have r: "\<forall>c\<in>set (rev r). py_isspace c" using assms(2) by simp
  show ?thesis
  proof (cases "\<forall>c\<in>set s. py_isspace c")
    case True
    then have e: "dropWhile py_isspace (s @ r) = []" "dropWhile py_isspace s = []"
      using assms(2) by auto
    show ?thesis by (simp only: py_strip_def a e)
  next
    case False
    then obtain x where "x \<in> set s" "\<not> py_isspace x" by blast
    then have e: "dropWhile py_isspace (s @ r) = dropWhile py_isspace s @ r"
      by (rule dropWhile_append1)
    show ?thesis using dropWhile_all[OF r] by (simp only: py_strip_def a e rev_append)
  qed
qed

lemma run_test_completed:
  assumes "encode_val (tc_input t) = Inr inp" "exec inp = Inr p"
    "utf8_decode (stdout p) = Some out" "tc_output t = Text e"
  shows "run_test exec t =
    (if returncode p \<noteq> 0 \<and> utf8_decode (stderr p) = None then Inl UnicodeDecodeError
     else Inr \<lparr>verdict = (if py_strip out = py_strip e then AC else WA),
               cause = (if returncode p \<noteq> 0 then RE else NoCause),
               output_str = py_strip out, expected = py_strip e\<rparr>)"
  using assms
  by (auto simp: run_test_def try_block_def strip_val_def runtime_error_def split: option.splits)

lemma run_test_no_proc:
  assumes "try_block exec t = (proc, out, c)" "c = TLE \<or> c = ERR" "tc_output t = Text e"
  shows "run_test exec t = Inr \<lparr>verdict = (if py_strip e = [] then AC else WA), cause = c,
               output_str = [], expected = py_strip e\<rparr>"
  using assms
  by (auto simp: run_test_def try_block_def strip_val_def runtime_error_def split: option.splits sum.splits exn.splits)

lemma try_block_timeout:
  "encode_val (tc_input t) = Inr inp \<Longrightarrow> exec inp = Inl TimeoutExpired \<Longrightarrow> try_block exec t = (None, [], TLE)"
  by (simp add: try_block_def)

text \<open>
  Claim C4, as stated, fails: a process that exits with code zero after printing the
  byte \<open>0xFF\<close>, which is not UTF-8, is given the verdict \<open>AC\<close> against an expected
  output of a lone newline; the decoding error is caught as \<open>ERR\<close> and the empty
  captured output equals the stripped expected output. With an expected output that is
  not a string \<open>run_test\<close> returns no verdict at all.
\<close>

theorem undecodable_stdout_accepted_counterexample:
  "encode_val (tc_input tc_silent) = Inr (lit ''7'') \<and>
   prints_garbage (lit ''7'') = Inr \<lparr>returncode = 0, stdout = [255], stderr = []\<rparr> \<and>
   utf8_decode [255] = None \<and>
   run_test prints_garbage tc_silent =
     Inr \<lparr>verdict = AC, cause = ERR, output_str = [], expected = []\<rparr> \<and>
   run_test prints_answer \<lparr>tc_input = Text (lit ''7''), tc_output = NoneVal\<rparr> =
     Inl AttributeError"
  by (simp add: tc_silent_def prints_garbage_def prints_answer_def lit_def py_strip_def
      py_isspace_def encode_val_def strip_val_def try_block_def runtime_error_def run_test_def)

text \<open>
  Claim C4, amended. A testcase whose process completes within the timeout and exits
  with code zero, whose standard output is valid UTF-8 and whose expected output is a
  string, is accepted exactly when the standard output and the expected output are equal
  after \<open>strip()\<close> on each: any other difference is a wrong answer, and padding either
  side with leading or trailing whitespace changes nothing.
\<close>

theorem zero_exit_verdict:
  assumes "encode_val (tc_input t) = Inr inp" and "exec inp = Inr p" and "returncode p = 0"
    and "utf8_decode (stdout p) = Some out" and "tc_output t = Text e"
  shows "\<exists>r. run_test exec t = Inr r \<and> cause r = NoCause \<and>
           (verdict r = AC \<longleftrightarrow> py_strip out = py_strip e) \<and>
           (verdict r = WA \<longleftrightarrow> py_strip out \<noteq> py_strip e) \<and>
           (\<forall>core l1 r1 l2 r2.
              out = l1 @ core @ r1 \<and> e = l2 @ core @ r2 \<and>
              (\<forall>c \<in> set (l1 @ r1 @ l2 @ r2). py_isspace c) \<longrightarrow> verdict r = AC)"
proof -
  let ?r = "\<lparr>verdict = (if py_strip out = py_strip e then AC else WA), cause = NoCause,
             output_str = py_strip out, expected = py_strip e\<rparr>"
  have run: "run_test exec t = Inr ?r"
    using run_test_completed [where exec = exec and t = t and inp = inp and p = p, OF assms(1,2,4,5)]
      assms(3) by simp
  have pad: "py_strip (l1 @ core @ r1) = py_strip (l2 @ core @ r2)"
    if "\<forall>c \<in> set (l1 @ r1 @ l2 @ r2). py_isspace c" for core l1 r1 l2 r2
    using that by (simp add: py_strip_pad)
  have "verdict ?r = AC" if "out = l1 @ core @ r1 \<and> e = l2 @ core @ r2 \<and>
              (\<forall>c \<in> set (l1 @ r1 @ l2 @ r2). py_isspace c)" for core l1 r1 l2 r2
    using that pad [of l1 r1 l2 r2 core] by simp
  then have inv: "\<forall>core l1 r1 l2 r2.
              out = l1 @ core @ r1 \<and> e = l2 @ core @ r2 \<and>
              (\<forall>c \<in> set (l1 @ r1 @ l2 @ r2). py_isspace c) \<longrightarrow> verdict ?r = AC"
    by blast
  have "cause ?r = NoCause" "verdict ?r = AC \<longleftrightarrow> py_strip out = py_strip e"
    "verdict ?r = WA \<longleftrightarrow> py_strip out \<noteq> py_strip e"
    by simp_all
  with run inv show ?thesis by blast
qed

theorem zero_exit_verdict_witness:
  "encode_val (tc_input tc_answer) = Inr (lit ''7'') \<and>
   prints_answer (lit ''7'') = Inr \<lparr>returncode = 0, stdout = [32, 52, 50, 10], stderr = []\<rparr> \<and>
   run_test prints_answer tc_answer =
     Inr \<lparr>verdict = AC, cause = NoCause, output_str = lit ''42'', expected = lit ''42''\<rparr>"
proof -
  have 1: "encode_val (tc_input tc_answer) = Inr (lit ''7'')"
    by (simp add: tc_answer_def encode_val_def lit_def)
  have 2: "prints_answer (lit ''7'') = Inr \<lparr>returncode = 0, stdout = [32, 52, 50, 10], stderr = []\<rparr>"
    by (simp add: prints_answer_def)
  have 3: "utf8_decode (stdout \<lparr>returncode = 0, stdout = [32, 52, 50, 10], stderr = []\<rparr>) = Some [32, 52, 50, 10]"
    by simp
  have 4: "tc_output tc_answer = Text [52, 50, 10]" by (simp add: tc_answer_def)
  have s1: "py_strip [32, 52, 50, 10] = lit ''42''" by (simp add: py_strip_def py_isspace_def lit_def)
  have s2: "py_strip [52, 50, 10] = lit ''42''" by (simp add: py_strip_def py_isspace_def lit_def)
  have 5: "returncode \<lparr>returncode = 0, stdout = [32, 52, 50, 10], stderr = []\<rparr> = 0" by simp
  from zero_exit_verdict [where exec = prints_answer and t = tc_answer, OF 1 2 5 3 4]
  obtain r where r: "run_test prints_answer tc_answer = Inr r" "cause r = NoCause"
    "verdict r = AC \<longleftrightarrow> py_strip [32, 52, 50, 10] = py_strip [52, 50, 10]"
    by blast
  have "output_str r = lit ''42'' \<and> expected r = lit ''42''"
    using r(1) run_test_completed [where exec = prints_answer and t = tc_answer, OF 1 2 3 4]
    by (auto simp: s1 s2)
  with r s1 s2 have "r = \<lparr>verdict = AC, cause = NoCause, output_str = lit ''42'', expected = lit ''42''\<rparr>"
    by simp
  with 1 2 r(1) show ?thesis by simp
qed

lemmas example_defs = base_world_def base_config_def archive_silent_def world_hanging_def
  tc_answer_def tc_silent_def prints_answer_def crashes_after_answer_def hangs_def
  crashes_wrong_def missing_binary_def archive_answer_def world_crashing_def

lemmas eval_defs = lit_def py_strip_def py_isspace_def encode_val_def strip_val_def try_block_def
  runtime_error_def run_test_def compile_code_def load_testcases_def main_def program_def
  parse_args_def resolve_tc_def truthy_def get_def py_or_def has_input_def decode_key_def decode_field_def
  py_sorted_def overall_status_def

text \<open>
  Claim C9. When the expected output is empty after \<open>strip()\<close>, a run that timed out
  (cause \<open>TLE\<close>) or failed unexpectedly (cause \<open>ERR\<close>) is still given the verdict
  \<open>AC\<close>, with an empty captured output, and the main loop counts it as passed.
\<close>

theorem empty_expected_accepts_failed_run:
  assumes "tc_output t = Text e" and "py_strip e = []"
    and "try_block exec t = (proc, out, c)" and "c = TLE \<or> c = ERR"
  shows "\<exists>r. run_test exec t = Inr r \<and> verdict r = AC \<and> cause r = c \<and> output_str r = [] \<and>
           run_tests exec ((k, t) # rest) passed =
             (case run_tests exec rest (passed + 1) of (evs, x) \<Rightarrow> (Execute k # evs, x))"
  using run_test_no_proc [where exec = exec and t = t, OF assms(3,4,1)] assms(2) by simp

theorem empty_expected_accepts_failed_run_witness:
  "tc_output tc_silent = Text [10] \<and> py_strip [10] = [] \<and>
   try_block hangs tc_silent = (None, [], TLE) \<and>
   try_block missing_binary tc_silent = (None, [], ERR) \<and>
   run_test hangs tc_silent = Inr \<lparr>verdict = AC, cause = TLE, output_str = [], expected = []\<rparr> \<and>
   run_test missing_binary tc_silent =
     Inr \<lparr>verdict = AC, cause = ERR, output_str = [], expected = []\<rparr> \<and>
   run_tests hangs [(lit ''1'', tc_silent)] 0 = ([Execute (lit ''1'')], Inr 1)"
proof -
  have 1: "tc_output tc_silent = Text [10]" by (simp add: tc_silent_def)
  have 2: "py_strip [10] = []" by (simp add: py_strip_def py_isspace_def)
  have 3: "try_block hangs tc_silent = (None, [], TLE)"
    by (simp add: try_block_def encode_val_def tc_silent_def hangs_def lit_def)
  have 4: "try_block missing_binary tc_silent = (None, [], ERR)"
    by (simp add: try_block_def encode_val_def tc_silent_def missing_binary_def lit_def)
  from empty_expected_accepts_failed_run [where exec = hangs and t = tc_silent
      and k = "lit ''1''" and rest = "[]" and passed = 0, OF 1 2 3]
  obtain r where r: "run_test hangs tc_silent = Inr r" "verdict r = AC" "cause r = TLE"
    "output_str r = []"
    "run_tests hangs [(lit ''1'', tc_silent)] 0 = ([Execute (lit ''1'')], Inr 1)"
    by auto
  from empty_expected_accepts_failed_run [where exec = missing_binary and t = tc_silent
      and k = "lit ''1''" and rest = "[]" and passed = 0, OF 1 2 4]
  obtain r' where r': "run_test missing_binary tc_silent = Inr r'" "verdict r' = AC"
    "cause r' = ERR" "output_str r' = []"
    by auto
  have "expected r = []"
    using r(1) run_test_no_proc [where exec = hangs and t = tc_silent, OF 3 _ 1] 2 by auto
  with r have a: "r = \<lparr>verdict = AC, cause = TLE, output_str = [], expected = []\<rparr>" by simp
  have "expected r' = []"
    using r'(1) run_test_no_proc [where exec = missing_binary and t = tc_silent, OF 4 _ 1] 2 by auto
  with r' have b: "r' = \<lparr>verdict = AC, cause = ERR, output_str = [], expected = []\<rparr>" by simp
  from 1 2 3 4 r(1,5) r'(1) a b show ?thesis by simp
qed

text \<open>
  Claim C2, as stated, fails: a testcase that timed out is given the verdict \<open>AC\<close> and
  counted as passed when its expected output is empty after \<open>strip()\<close>.
\<close>

theorem timeout_accepted_counterexample:
  "encode_val (tc_input tc_silent) = Inr (lit ''7'') \<and> hangs (lit ''7'') = Inl TimeoutExpired \<and>
   run_test hangs tc_silent = Inr \<lparr>verdict = AC, cause = TLE, output_str = [], expected = []\<rparr> \<and>
   main world_hanging base_config =
     \<lparr>events = [Compile, Execute (lit ''1'')], ending = Returned,
      summary = Some (1, 1, ALL_PASSED)\<rparr>"
  by (simp add: example_defs eval_defs)

text \<open>
  Claim C2, amended. A testcase whose subprocess wait exceeds the timeout gets the cause
  \<open>TLE\<close> and an empty captured output. The verdict field holds \<open>AC\<close> or \<open>WA\<close> only;
  when the expected output is not empty after \<open>strip()\<close> it is \<open>WA\<close>, and the main loop
  does not count the testcase as passed.
\<close>

theorem timeout_cause_TLE:
  assumes "encode_val (tc_input t) = Inr inp" and "exec inp = Inl TimeoutExpired"
    and "tc_output t = Text e"
  shows "\<exists>r. run_test exec t = Inr r \<and> cause r = TLE \<and> output_str r = [] \<and>
           (py_strip e \<noteq> [] \<longrightarrow>
              verdict r = WA \<and>
              run_tests exec ((k, t) # rest) passed =
                (case run_tests exec rest passed of (evs, x) \<Rightarrow> (Execute k # evs, x)))"
proof -
  have "try_block exec t = (None, [], TLE)"
    using assms(1,2) by (rule try_block_timeout)
  from run_test_no_proc [where exec = exec and t = t, OF this _ assms(3)]
  show ?thesis by simp
qed

theorem timeout_cause_TLE_witness:
  "encode_val (tc_input tc_answer) = Inr (lit ''7'') \<and> hangs (lit ''7'') = Inl TimeoutExpired \<and>
   tc_output tc_answer = Text [52, 50, 10] \<and> py_strip [52, 50, 10] \<noteq> [] \<and>
   run_test hangs tc_answer =
     Inr \<lparr>verdict = WA, cause = TLE, output_str = [], expected = lit ''42''\<rparr> \<and>
   run_tests hangs [(lit ''1'', tc_answer)] 0 = ([Execute (lit ''1'')], Inr 0)"
proof -
  have 1: "encode_val (tc_input tc_answer) = Inr (lit ''7'')"
    by (simp add: tc_answer_def encode_val_def lit_def)
  have 2: "hangs (lit ''7'') = Inl TimeoutExpired" by (simp add: hangs_def)
  have 3: "tc_output tc_answer = Text [52, 50, 10]" by (simp add: tc_answer_def)
  have 4: "py_strip [52, 50, 10] = lit ''42''" by (simp add: py_strip_def py_isspace_def lit_def)
  have 5: "py_strip [52, 50, 10] \<noteq> []" by (simp only: 4) (simp add: lit_def)
  from timeout_cause_TLE [where exec = hangs and t = tc_answer and k = "lit ''1''"
      and rest = "[]" and passed = 0, OF 1 2 3] 5
  obtain r where r: "run_test hangs tc_answer = Inr r" "cause r = TLE" "output_str r = []"
    "verdict r = WA" "run_tests hangs [(lit ''1'', tc_answer)] 0 = ([Execute (lit ''1'')], Inr 0)"
    by auto
  have "expected r = lit ''42''"
    using r(1) run_test_no_proc [where exec = hangs and t = tc_answer,
        OF try_block_timeout [where exec = hangs, OF 1 2] _ 3] 4 by auto
  with r have "r = \<lparr>verdict = WA, cause = TLE, output_str = [], expected = lit ''42''\<rparr>"
    by simp
  with 1 2 3 5 r(1,5) show ?thesis by simp
qed

text \<open>
  Claim C1, as stated, fails: a process that prints the expected answer and then exits
  with code 1 gets the cause \<open>RE\<close> but the verdict \<open>AC\<close>, and is counted as passed.
\<close>

theorem nonzero_exit_accepted_counterexample:
  "encode_val (tc_input tc_answer) = Inr (lit ''7'') \<and>
   crashes_after_answer (lit ''7'') =
     Inr \<lparr>returncode = 1, stdout = [52, 50, 10], stderr = lit ''Aborted''\<rparr> \<and>
   run_test crashes_after_answer tc_answer =
     Inr \<lparr>verdict = AC, cause = RE, output_str = lit ''42'', expected = lit ''42''\<rparr> \<and>
   main world_crashing base_config =
     \<lparr>events = [Compile, Execute (lit ''1'')], ending = Returned,
      summary = Some (1, 1, ALL_PASSED)\<rparr>"
  by (simp add: example_defs eval_defs)

text \<open>
  Claim C1, amended. A testcase whose subprocess completes within the timeout with a
  non-zero return code, its standard output and standard error both valid UTF-8, gets
  the cause \<open>RE\<close>. The verdict field holds \<open>AC\<close> or \<open>WA\<close> only; when the outputs differ
  after \<open>strip()\<close> it is \<open>WA\<close>.
\<close>

theorem nonzero_exit_cause_RE:
  assumes "encode_val (tc_input t) = Inr inp" and "exec inp = Inr p" and "returncode p \<noteq> 0"
    and "utf8_decode (stdout p) = Some out" and "utf8_decode (stderr p) = Some err"
    and "tc_output t = Text e"
  shows "\<exists>r. run_test exec t = Inr r \<and> cause r = RE \<and> output_str r = py_strip out \<and>
           (py_strip out \<noteq> py_strip e \<longrightarrow> verdict r = WA)"
  using run_test_completed [where exec = exec and t = t and inp = inp and p = p,
      OF assms(1,2,4,6)] assms(3,5)
  by simp

theorem nonzero_exit_cause_RE_witness:
  "encode_val (tc_input tc_answer) = Inr (lit ''7'') \<and>
   crashes_wrong (lit ''7'') =
     Inr \<lparr>returncode = 139, stdout = lit ''41'', stderr = lit ''Segmentation fault''\<rparr> \<and>
   py_strip (lit ''41'') \<noteq> py_strip [52, 50, 10] \<and>
   run_test crashes_wrong tc_answer =
     Inr \<lparr>verdict = WA, cause = RE, output_str = lit ''41'', expected = lit ''42''\<rparr>"
proof -
  let ?p = "\<lparr>returncode = 139, stdout = lit ''41'', stderr = lit ''Segmentation fault''\<rparr>"
  have 1: "encode_val (tc_input tc_answer) = Inr (lit ''7'')"
    by (simp add: tc_answer_def encode_val_def lit_def)
  have 2: "crashes_wrong (lit ''7'') = Inr ?p" by (simp add: crashes_wrong_def)
  have 3: "returncode ?p \<noteq> 0" by simp
  have 4: "utf8_decode (stdout ?p) = Some (lit ''41'')" by (simp add: lit_def)
  have 5: "utf8_decode (stderr ?p) = Some (lit ''Segmentation fault'')" by (simp add: lit_def)
  have 6: "tc_output tc_answer = Text [52, 50, 10]" by (simp add: tc_answer_def)
  have s1: "py_strip (lit ''41'') = lit ''41''" by (simp add: py_strip_def py_isspace_def lit_def)
  have s2: "py_strip [52, 50, 10] = lit ''42''" by (simp add: py_strip_def py_isspace_def lit_def)
  have 7: "py_strip (lit ''41'') \<noteq> py_strip [52, 50, 10]"
    by (simp only: s1 s2) (simp add: lit_def)
  from nonzero_exit_cause_RE [where exec = crashes_wrong and t = tc_answer, OF 1 2 3 4 5 6] 7
  obtain r where r: "run_test crashes_wrong tc_answer = Inr r" "cause r = RE"
    "output_str r = py_strip (lit ''41'')" "verdict r = WA"
    by auto
  have "expected r = lit ''42''"
    using r(1) run_test_completed [where exec = crashes_wrong and t = tc_answer, OF 1 2 4 6] 5 s2
    by auto
  with r s1 have "r = \<lparr>verdict = WA, cause = RE, output_str = lit ''41'', expected = lit ''42''\<rparr>"
    by simp
  with 1 2 7 r(1) show ?thesis by simp
qed

section \<open>Properties of the main loop\<close>

lemma run_tests_bounds:
  "run_tests exec tcs p = (evs, Inr q) \<Longrightarrow> p \<le> q \<and> q \<le> p + length tcs"
proof (induction tcs arbitrary: p evs)
  case Nil
  then show ?case by simp
next
  case (Cons a tcs)
  obtain k t where a: "a = (k, t)" by (cases a)
  from Cons.prems obtain r evs' where
    r: "run_test exec t = Inr r"
    and rec: "run_tests exec tcs (if verdict r = AC then p + 1 else p) = (evs', Inr q)"
    by (auto simp: a split: sum.splits prod.splits)
  from Cons.IH [OF rec] show ?case by (auto split: if_splits)
qed

lemma run_tests_events:
  "run_tests exec tcs p = (evs, Inr q) \<Longrightarrow> evs = map (Execute \<circ> fst) tcs"
proof (induction tcs arbitrary: p evs)
  case Nil
  then show ?case by simp
next
  case (Cons a tcs)
  obtain k t where a: "a = (k, t)" by (cases a)
  from Cons.prems obtain r evs' where
    r: "run_test exec t = Inr r" and e: "evs = Execute k # evs'"
    and rec: "run_tests exec tcs (if verdict r = AC then p + 1 else p) = (evs', Inr q)"
    by (auto simp: a split: sum.splits prod.splits)
  from Cons.IH [OF rec] show ?case by (simp add: a e)
qed


lemma main_summary:
  assumes "summary (main w g) = Some (passed, total_n, st)"
  shows "\<exists>tcs evs. load_testcases w g = Inr tcs \<and> tcs \<noteq> [] \<and> total_n = length tcs \<and>
           run_tests (run_executable w (EXECUTABLE g)) (py_sorted tcs) 0 = (evs, Inr passed) \<and>
           st = overall_status passed total_n \<and>
           main w g = \<lparr>events = Compile # evs, ending = Returned, summary = Some (passed, total_n, st)\<rparr>"
  using assms
  by (auto simp: main_def Let_def split: ending.splits sum.splits if_splits prod.splits)

text \<open>
  Claim C8. A run that reaches the summary has executed at least one testcase; its
  counts satisfy \<open>passed \<le> total\<close>, and the status is a function of the two counts: all
  passed exactly when they are equal, some failed exactly when \<open>0 < passed < total\<close>, all
  failed exactly when \<open>passed = 0\<close>.
\<close>

theorem summary_status:
  assumes "summary (main w g) = Some (passed, total_n, st)"
  shows "passed \<le> total_n \<and> 0 < total_n \<and>
         length (filter (\<lambda>e. e \<noteq> Compile) (events (main w g))) = total_n \<and>
         st = overall_status passed total_n \<and>
         (st = ALL_PASSED \<longleftrightarrow> passed = total_n) \<and>
         (st = SOME_FAILED \<longleftrightarrow> 0 < passed \<and> passed < total_n) \<and>
         (st = ALL_FAILED \<longleftrightarrow> passed = 0)"
proof -
  from main_summary [OF assms] obtain tcs evs where
    tcs: "tcs \<noteq> []" "total_n = length tcs"
    and run: "run_tests (run_executable w (EXECUTABLE g)) (py_sorted tcs) 0 = (evs, Inr passed)"
    and st: "st = overall_status passed total_n"
    and m: "main w g = \<lparr>events = Compile # evs, ending = Returned, summary = Some (passed, total_n, st)\<rparr>"
    by blast
  from run_tests_bounds [OF run] tcs have le: "passed \<le> total_n" "0 < total_n"
    by (simp_all add: py_sorted_def)
  from run_tests_events [OF run] have "evs = map (Execute \<circ> fst) (py_sorted tcs)" .
  then have n: "length (filter (\<lambda>e. e \<noteq> Compile) (events (main w g))) = total_n"
    by (simp add: m tcs py_sorted_def filter_map comp_def)
  from le st n show ?thesis by (auto simp: overall_status_def)
qed


theorem summary_status_witness:
  "summary (main world_two base_config) = Some (1, 2, SOME_FAILED) \<and>
   events (main world_two base_config) = [Compile, Execute (lit ''1''), Execute (lit ''2'')] \<and>
   overall_status 1 2 = SOME_FAILED \<and> overall_status 2 2 = ALL_PASSED \<and>
   overall_status 0 2 = ALL_FAILED"
proof -
  have 1: "main world_two base_config =
    \<lparr>events = [Compile, Execute (lit ''1''), Execute (lit ''2'')], ending = Returned,
     summary = Some (1, 2, SOME_FAILED)\<rparr>"
    by (simp add: world_two_def archive_two_def example_defs eval_defs Let_def)
  then have 2: "summary (main world_two base_config) = Some (1, 2, SOME_FAILED)" by simp
  from summary_status [OF 2] 1 2 show ?thesis by (simp add: overall_status_def)
qed

subsection \<open>Identifiers of the text-pair loader\<close>

lemma str_nat_value: "foldl (\<lambda>a d. 10 * a + (d - 48)) 0 (str_nat n) = n"
proof (induction n rule: str_nat.induct)
  case (1 n)
  show ?case
  proof (cases "n < 10")
    case True
    then show ?thesis by (simp add: str_nat.simps [of n])
  next
    case False
    with 1 show ?thesis by (simp add: str_nat.simps [of n])
  qed
qed

lemma str_nat_inj: "str_nat m = str_nat n \<Longrightarrow> m = n"
proof -
  assume "str_nat m = str_nat n"
  then have "foldl (\<lambda>a d. 10 * a + (d - 48)) 0 (str_nat m) =
             foldl (\<lambda>a d. 10 * a + (d - 48)) 0 (str_nat n)" by (rule arg_cong)
  then show "m = n" by (simp only: str_nat_value)
qed


lemma update_fresh: "k \<notin> fst ` set acc \<Longrightarrow> AList.update k v acc = acc @ [(k, v)]"
  by (induction acc) auto

lemma enumerate_pairs_eq:
  assumes "\<forall>k \<in> fst ` set acc. \<forall>j \<ge> i. k \<noteq> str_nat j"
  shows "enumerate_pairs i ps acc =
           acc @ map (\<lambda>(j, inp, out).
                       (str_nat j, \<lparr>tc_input = Text (py_strip inp),
                                    tc_output = Text (py_strip out)\<rparr>))
                   (zip [i..<i + length ps] ps)"
  using assms
proof (induction ps arbitrary: i acc)
  case Nil
  then show ?case by simp
next
  case (Cons a ps)
  obtain inp out where a: "a = (inp, out)" by (cases a)
  let ?v = "\<lparr>tc_input = Text (py_strip inp), tc_output = Text (py_strip out)\<rparr>"
  have new: "str_nat i \<notin> fst ` set acc"
  proof
    assume "str_nat i \<in> fst ` set acc"
    with Cons.prems have "\<forall>j \<ge> i. str_nat i \<noteq> str_nat j" by (rule bspec)
    then have "i \<le> i \<longrightarrow> str_nat i \<noteq> str_nat i" by (rule spec)
    then show False by simp
  qed
  have upd: "AList.update (str_nat i) ?v acc = acc @ [(str_nat i, ?v)]"
    using new by (rule update_fresh)
  have fresh: "\<forall>k \<in> fst ` set (acc @ [(str_nat i, ?v)]). \<forall>j \<ge> Suc i. k \<noteq> str_nat j"
  proof (intro ballI allI impI)
    fix k j assume k: "k \<in> fst ` set (acc @ [(str_nat i, ?v)])" and j: "Suc i \<le> j"
    from k have "k \<in> fst ` set acc \<or> k = str_nat i" by auto
    then show "k \<noteq> str_nat j"
    proof
      assume "k \<in> fst ` set acc"
      with Cons.prems have "\<forall>j \<ge> i. k \<noteq> str_nat j" by (rule bspec)
      with j show ?thesis by simp
    next
      assume "k = str_nat i"
      with j str_nat_inj [of i j] show ?thesis by auto
    qed
  qed
  have upt: "[i..<i + length (a # ps)] = i # [Suc i..<Suc i + length ps]"
    by (simp add: upt_rec)
  show ?case
    unfolding upt by (simp add: a upd Cons.IH [OF fresh])
qed


section \<open>Properties of the loader\<close>

lemma decode_field_or:
  "decodable a \<Longrightarrow> decodable b \<Longrightarrow> \<exists>x. decode_field (py_or a b) = Inr x"
  by (cases a rule: decodable.cases; cases b rule: decodable.cases)
     (auto simp: decode_field_def py_or_def split: option.splits)

lemma ident_pair: "ident (k, v) = decode_key k"
  by (simp add: ident_def)

lemma decode_items_keys:
  assumes "list_all fields_decodable (runnable tcs)"
    and "distinct (map ident (runnable tcs))"
    and "\<forall>s \<in> fst ` set acc. Inr s \<notin> set (map ident (runnable tcs))"
  shows "\<exists>loaded. decode_items tcs acc = Inr loaded \<and>
           map Inr (map fst loaded) = map Inr (map fst acc) @ map ident (runnable tcs)"
  using assms
proof (induction tcs arbitrary: acc)
  case Nil
  then show ?case by (simp add: runnable_def)
next
  case (Cons a tcs)
  obtain k v where a: "a = (k, v)" by (cases a)
  show ?case
  proof (cases "has_input v")
    case False
    then have r: "runnable (a # tcs) = runnable tcs" by (simp add: runnable_def a)
    have step: "decode_items (a # tcs) acc = decode_items tcs acc" by (simp add: a False)
    from Cons.IH [of acc] Cons.prems show ?thesis by (simp only: r step)
  next
    case True
    then have r: "runnable (a # tcs) = (k, v) # runnable tcs" by (simp add: runnable_def a)
    from Cons.prems(1) have fd: "fields_decodable (k, v)" and rest: "list_all fields_decodable (runnable tcs)"
      by (simp_all add: r)
    from fd obtain key where key: "decode_key k = Inr key"
      by (auto simp: fields_decodable_def split: sum.splits)
    from fd obtain i where i: "decode_field (py_or (get v (Str (lit ''input''))) (get v (Bytes (lit ''input'')))) = Inr i"
      using decode_field_or by (auto simp: fields_decodable_def)
    from fd obtain ou where ou: "decode_field (py_or (get v (Str (lit ''output''))) (get v (Bytes (lit ''output'')))) = Inr ou"
      using decode_field_or by (auto simp: fields_decodable_def)
    let ?t = "\<lparr>tc_input = i, tc_output = ou\<rparr>"
    have step: "decode_items (a # tcs) acc = decode_items tcs (AList.update key ?t acc)"
      by (simp add: a True key i ou Let_def)
    have "key \<notin> fst ` set acc"
    proof
      assume "key \<in> fst ` set acc"
      with Cons.prems(3) have "Inr key \<notin> set (map ident (runnable (a # tcs)))"
        by (rule bspec)
      then show False by (simp add: r key ident_pair)
    qed
    then have upd: "AList.update key ?t acc = acc @ [(key, ?t)]" by (rule update_fresh)
    have d: "distinct (map ident (runnable tcs))"
      and knew: "Inr key \<notin> set (map ident (runnable tcs))"
      using Cons.prems(2) by (simp_all add: r key ident_pair)
    have fresh: "\<forall>s \<in> fst ` set (acc @ [(key, ?t)]).
              Inr s \<notin> set (map ident (runnable tcs))"
    proof
      fix s assume "s \<in> fst ` set (acc @ [(key, ?t)])"
      then have "s \<in> fst ` set acc \<or> s = key" by auto
      then show "Inr s \<notin> set (map ident (runnable tcs))"
      proof
        assume "s \<in> fst ` set acc"
        with Cons.prems(3) have "Inr s \<notin> set (map ident (runnable (a # tcs)))"
          by (rule bspec)
        then show ?thesis by (simp add: r)
      next
        assume "s = key"
        with knew show ?thesis by simp
      qed
    qed
    from Cons.IH [OF rest d fresh] show ?thesis
      by (simp add: step upd r key ident_pair)
  qed
qed


text \<open>
  Claim C7. From a well-formed archive the loader returns one testcase for each entry
  that has an input field, under the text or the byte key, in the order of the archive
  and under the entry's decoded identifier; entries without an input field are skipped,
  so the number of testcases is the number of entries with an input field.
\<close>

theorem archive_load_count:
  assumes "TC_FILE g = Some p" and "path_exists w p" and "unpack_file w p = Inr tcs"
    and "well_formed tcs"
  shows "\<exists>loaded. load_testcases w g = Inr loaded \<and>
           length loaded = length (filter (\<lambda>(k, v). has_input v) tcs) \<and>
           map Inr (map fst loaded) = map ident (runnable tcs) \<and>
           distinct (map fst loaded)"
proof -
  from assms(4) have wf: "list_all fields_decodable (runnable tcs)"
    "distinct (map ident (runnable tcs))"
    by (simp_all add: well_formed_def)
  from decode_items_keys [OF wf, of "[]"] obtain loaded where
    l: "decode_items tcs [] = Inr loaded"
    and k: "map Inr (map fst loaded) = map ident (runnable tcs)"
    by auto
  have load: "load_testcases w g = Inr loaded"
    by (simp add: load_testcases_def assms(1,2,3) l)
  from arg_cong [OF k, of length]
  have len: "length loaded = length (filter (\<lambda>(k, v). has_input v) tcs)"
    by (simp add: runnable_def)
  from wf(2) have "distinct (map Inr (map fst loaded) :: (exn + py_str) list)"
    by (simp only: k)
  then have "distinct (map fst loaded)" by (simp only: distinct_map [where f = Inr])
  with load len k show ?thesis by blast
qed

theorem archive_load_count_witness:
  "TC_FILE base_config = Some (lit ''sol.tc'') \<and> path_exists world_mixed (lit ''sol.tc'') \<and>
   unpack_file world_mixed (lit ''sol.tc'') = Inr archive_mixed \<and> well_formed archive_mixed \<and>
   length archive_mixed = 3 \<and> length (filter (\<lambda>(k, v). has_input v) archive_mixed) = 2 \<and>
   load_testcases world_mixed base_config =
     Inr [(lit ''1'', \<lparr>tc_input = Text (lit ''7''), tc_output = Text [52, 50, 10]\<rparr>),
          (lit ''2'', \<lparr>tc_input = Text (lit ''7''), tc_output = Text (lit ''43'')\<rparr>)]"
proof -
  have 1: "TC_FILE base_config = Some (lit ''sol.tc'')" by (simp add: base_config_def)
  have 2: "path_exists world_mixed (lit ''sol.tc'')" by (simp add: world_mixed_def base_world_def)
  have 3: "unpack_file world_mixed (lit ''sol.tc'') = Inr archive_mixed"
    by (simp add: world_mixed_def base_world_def)
  have 4: "well_formed archive_mixed"
    by (simp add: well_formed_def runnable_def fields_decodable_def ident_def archive_mixed_def
        eval_defs)
  have 5: "length archive_mixed = 3" by (simp add: archive_mixed_def)
  have 6: "length (filter (\<lambda>(k, v). has_input v) archive_mixed) = 2"
    by (simp add: archive_mixed_def eval_defs)
  from archive_load_count [OF 1 2 3 4] obtain loaded where
    l: "load_testcases world_mixed base_config = Inr loaded" "length loaded = 2"
    by (auto simp: 6)
  have "load_testcases world_mixed base_config =
     Inr [(lit ''1'', \<lparr>tc_input = Text (lit ''7''), tc_output = Text [52, 50, 10]\<rparr>),
          (lit ''2'', \<lparr>tc_input = Text (lit ''7''), tc_output = Text (lit ''43'')\<rparr>)]"
    by (simp add: world_mixed_def archive_mixed_def example_defs eval_defs Let_def)
  with 1 2 3 4 5 6 l show ?thesis by simp
qed

section \<open>Fatal errors and exit codes\<close>

lemmas world_defs = base_args_def world_no_archive_def world_no_source_def world_bad_compile_def
  archive_no_output_def world_no_output_def world_two_def archive_two_def

lemma fatal_load_exits: "fatal_load w g \<Longrightarrow> load_testcases w g = Inl (SystemExit 1)"
  by (auto simp: fatal_load_def load_testcases_def Let_def
      split: option.splits sum.splits if_splits)

lemma main_compile_first: "\<exists>evs. events (main w g) = Compile # evs"
  by (auto simp: main_def Let_def split: ending.splits sum.splits prod.splits)

lemma main_fatal_load:
  "fatal_load w g \<Longrightarrow>
   main w g = \<lparr>events = [Compile],
              ending = (if compile_code w g = Returned then SystemExit 1 else compile_code w g),
              summary = None\<rparr>"
  by (auto simp: main_def fatal_load_exits split: ending.splits)


text \<open>
  Claim C3, as stated, fails: with the archive missing, the compiler has been invoked
  before the loader reports the error and exits.
\<close>

theorem compile_before_fatal_load_counterexample:
  "fatal_load world_no_archive base_config \<and>
   load_testcases world_no_archive base_config = Inl (SystemExit 1) \<and>
   main world_no_archive base_config =
     \<lparr>events = [Compile], ending = SystemExit 1, summary = None\<rparr>"
  by (simp add: fatal_load_def world_defs example_defs eval_defs)

text \<open>
  Claim C3, amended. \<open>main\<close> compiles first and loads second. Whenever loading fails
  fatally (the archive is missing, a text-pair file is missing, or the text-pair counts
  differ), the compiler has been invoked once, no testcase is executed, and a run whose
  compilation succeeded exits with code 1; nothing is compiled after the load error.
\<close>

theorem fatal_load_after_compile:
  assumes "fatal_load w g"
  shows "events (main w g) = [Compile] \<and> summary (main w g) = None \<and>
         (compile_code w g = Returned \<longrightarrow>
            load_testcases w g = Inl (SystemExit 1) \<and> ending (main w g) = SystemExit 1 \<and>
            exit_code (ending (main w g)) = 1)"
  using main_fatal_load [OF assms] fatal_load_exits [OF assms] by simp

theorem fatal_load_after_compile_witness:
  "fatal_load world_no_archive base_config \<and>
   compile_code world_no_archive base_config = Returned \<and>
   events (main world_no_archive base_config) = [Compile] \<and>
   ending (main world_no_archive base_config) = SystemExit 1 \<and>
   exit_code (ending (main world_no_archive base_config)) = 1"
proof -
  have 1: "fatal_load world_no_archive base_config"
    by (simp add: fatal_load_def world_defs example_defs eval_defs)
  have 2: "compile_code world_no_archive base_config = Returned"
    by (simp add: world_defs example_defs eval_defs)
  from fatal_load_after_compile [OF 1] 1 2 show ?thesis by simp
qed

text \<open>
  Claim C5 fails on the code: \<open>tc["output"].strip()\<close> stands outside the \<open>try\<close>
  block. An archive entry with an input field and no output field is loaded with the
  output \<open>None\<close>; \<open>run_test\<close> then raises \<open>AttributeError\<close>, which nothing catches,
  and the run ends there.
\<close>

theorem missing_output_raises:
  "load_testcases world_no_output base_config =
     Inr [(lit ''1'', \<lparr>tc_input = Text (lit ''7''), tc_output = NoneVal\<rparr>)] \<and>
   run_test prints_answer \<lparr>tc_input = Text (lit ''7''), tc_output = NoneVal\<rparr> =
     Inl AttributeError \<and>
   main world_no_output base_config =
     \<lparr>events = [Compile, Execute (lit ''1'')], ending = Uncaught AttributeError,
      summary = None\<rparr>"
  by (simp add: world_defs example_defs eval_defs Let_def)


section \<open>What the harness does outside the claims' conditions\<close>

text \<open>
  Two entries whose keys decode to the same identifier give one testcase: the later
  entry overwrites the earlier one, so such an archive is not well-formed.
\<close>

lemma duplicate_identifier_overwrites:
  "\<not> well_formed archive_twice \<and>
   length (filter (\<lambda>(k, v). has_input v) archive_twice) = 2 \<and>
   decode_items archive_twice [] =
     Inr [(lit ''1'', \<lparr>tc_input = Text (lit ''8''), tc_output = Text (lit ''43'')\<rparr>)]"
  by (simp add: well_formed_def runnable_def fields_decodable_def ident_def archive_twice_def
      eval_defs Let_def)

text \<open>
  The second statement of \<open>run_test\<close> outside its \<open>try\<close> block: printing the standard
  error of a process that exited with a non-zero code raises when it is not UTF-8.
\<close>

lemma undecodable_stderr_raises:
  "run_test crashes_garbled tc_answer = Inl UnicodeDecodeError"
  by (simp add: crashes_garbled_def example_defs eval_defs)

text \<open>
  Apart from these two statements \<open>run_test\<close> always returns a result: it does so
  whenever the expected output is a string and the standard error, where it is printed,
  decodes.
\<close>

lemma run_test_returns:
  assumes "tc_output t = Text e"
    and "\<forall>p. fst (try_block exec t) = Some p \<longrightarrow> returncode p = 0 \<or> utf8_decode (stderr p) \<noteq> None"
  shows "\<exists>r. run_test exec t = Inr r"
  using assms
  by (cases "try_block exec t")
     (auto simp: run_test_def strip_val_def runtime_error_def split: option.splits)

section \<open>Exit codes\<close>



lemma parse_args_unresolved:
  "path_exists w (path_of w (source a)) \<Longrightarrow> resolve_tc w a = Inl e \<Longrightarrow>
   parse_args w a = Inl (Uncaught e)"
  by (simp add: parse_args_def)








text \<open>
  A source argument whose path has an empty name, such as \<open>.\<close>, exists as a directory;
  deriving the archive path from it raises \<open>ValueError\<close> before the text-pair
  arguments are looked at, and the run ends with a traceback and the exit code 1.
\<close>

lemma unnamed_source_raises:
  "resolve_tc world_unnamed_source args_unnamed_source = Inl ValueError \<and>
   truthy (txt_input args_unnamed_source) \<noteq> truthy (txt_output args_unnamed_source) \<and>
   program world_unnamed_source args_unnamed_source =
     \<lparr>events = [], ending = Uncaught ValueError, summary = None\<rparr> \<and>
   exit_code (ending (program world_unnamed_source args_unnamed_source)) = 1"
  by (simp add: world_unnamed_source_def args_unnamed_source_def args_half_pair_def world_defs
      example_defs eval_defs)

section \<open>The text-pair loader and the order of execution\<close>

lemma run_tests_executed:
  "fst (run_tests exec tcs p) =
     map (Execute \<circ> fst)
       (take (Suc (length (takeWhile (\<lambda>kt. \<not> isl (run_test exec (snd kt))) tcs))) tcs)"
proof (induction tcs arbitrary: p)
  case Nil
  then show ?case by simp
next
  case (Cons a tcs)
  obtain k t where a: "a = (k, t)" by (cases a)
  show ?case
  proof (cases "run_test exec t")
    case (Inl e)
    then show ?thesis by (simp add: a)
  next
    case (Inr r)
    with Cons.IH [of "if verdict r = AC then p + 1 else p"] show ?thesis
      by (simp add: a case_prod_beta)
  qed
qed

lemma split_blank_nonempty: "split_blank acc s \<noteq> []"
  by (induction acc s rule: split_blank.induct) auto

lemma load_text_pair:
  assumes "TC_FILE g = None" and "TXT_INPUT_FILE g = Some txt_in"
    and "TXT_OUTPUT_FILE g = Some txt_out"
    and "read_text w (path_of w txt_in) = Inr fin" and "read_text w (path_of w txt_out) = Inr fout"
    and "load_testcases w g = Inr tcs"
  shows "length (split_blank [] (py_strip fin)) = length (split_blank [] (py_strip fout)) \<and>
         tcs = enumerate_pairs 1
                 (zip (split_blank [] (py_strip fin)) (split_blank [] (py_strip fout))) []"
  using assms
  by (auto simp: load_testcases_def Let_def split: option.splits sum.splits if_splits)

lemma enumerate_pairs_nth:
  "length (enumerate_pairs 1 ps []) = length ps \<and>
   (\<forall>i < length ps.
      enumerate_pairs 1 ps [] ! i =
        (str_nat (Suc i), \<lparr>tc_input = Text (py_strip (fst (ps ! i))),
                           tc_output = Text (py_strip (snd (ps ! i)))\<rparr>))"
proof -
  define ks where "ks = [1..<1 + length ps]"
  have len: "length ks = length ps" by (simp only: ks_def length_upt add_diff_cancel_left')
  have k: "ks ! i = Suc i" if "i < length ps" for i
    using that unfolding ks_def by (simp only: nth_upt plus_1_eq_Suc)
  have "enumerate_pairs 1 ps [] =
          [] @ map (\<lambda>(j, inp, out).
                     (str_nat j, \<lparr>tc_input = Text (py_strip inp),
                                  tc_output = Text (py_strip out)\<rparr>))
                 (zip [1..<1 + length ps] ps)"
    by (rule enumerate_pairs_eq) simp
  then have e: "enumerate_pairs 1 ps [] =
                 map (\<lambda>(j, inp, out).
                       (str_nat j, \<lparr>tc_input = Text (py_strip inp),
                                    tc_output = Text (py_strip out)\<rparr>))
                   (zip ks ps)"
    by (simp only: ks_def append_Nil)
  show ?thesis
    unfolding e by (simp add: len k case_prod_beta)
qed


lemma keys_of_nth:
  assumes "\<forall>i < length tcs. fst (tcs ! i) = str_nat (Suc i)"
  shows "map fst tcs = map str_nat [1..<Suc (length tcs)]"
proof (rule nth_equalityI)
  show "length (map fst tcs) = length (map str_nat [1..<Suc (length tcs)])"
    by (simp del: upt_Suc)
next
  fix i assume "i < length (map fst tcs)"
  then have i: "i < length tcs" by simp
  then have "[1..<Suc (length tcs)] ! i = 1 + i" by (simp del: upt_Suc add: nth_upt)
  with i assms show "map fst tcs ! i = map str_nat [1..<Suc (length tcs)] ! i"
    by (simp del: upt_Suc)
qed

lemma str_nat_2: "str_nat 2 = lit ''2''"
  by (simp add: str_nat.simps [of 2] lit_def)

lemma str_nat_10: "str_nat 10 = lit ''10''"
  by (simp add: str_nat.simps [of 10] str_nat.simps [of "Suc 0"] lit_def)

lemma ten_before_two: "lit ''10'' < lit ''2''" "\<not> lit ''2'' \<le> lit ''10''"
  by (simp_all add: lit_def)

lemma sorted_keys_ten_two:
  assumes ks: "sorted ks" and ten: "lit ''10'' \<in> set ks" and two: "lit ''2'' \<in> set ks"
  shows "\<exists>i j. i < j \<and> j < length ks \<and> ks ! i = lit ''10'' \<and> ks ! j = lit ''2''"
proof -
  from ten obtain i where i: "i < length ks" "ks ! i = lit ''10''" by (auto simp: in_set_conv_nth)
  from two obtain j where j: "j < length ks" "ks ! j = lit ''2''" by (auto simp: in_set_conv_nth)
  have "i < j"
  proof (rule ccontr)
    assume "\<not> i < j"
    then have "j \<le> i" by simp
    from sorted_nth_mono [OF ks this i(1)] have "lit ''2'' \<le> lit ''10''" by (simp add: i j)
    with ten_before_two(2) show False by simp
  qed
  with i j show ?thesis by blast
qed

lemma positional_keys_not_sorted:
  assumes "10 \<le> n"
  shows "\<not> sorted (map str_nat [1..<Suc n])"
proof
  assume s: "sorted (map str_nat [1..<Suc n])"
  have "map str_nat [1..<Suc n] ! 1 \<le> map str_nat [1..<Suc n] ! 9"
    by (rule sorted_nth_mono [OF s]) (use assms in simp_all)
  moreover have "map str_nat [1..<Suc n] ! 1 = str_nat 2"
    "map str_nat [1..<Suc n] ! 9 = str_nat 10"
    using assms by (simp_all del: upt_Suc add: nth_upt numeral_2_eq_2)
  ultimately have "str_nat 2 \<le> str_nat 10" by (simp only:)
  then show False using ten_before_two(2) by (simp add: str_nat_2 str_nat_10)
qed

lemma main_events:
  assumes "compile_code w g = Returned" and "load_testcases w g = Inr tcs" and "tcs \<noteq> []"
  shows "events (main w g) =
           Compile # fst (run_tests (run_executable w (EXECUTABLE g)) (py_sorted tcs) 0)"
  using assms by (simp add: main_def Let_def split: prod.splits sum.splits)

lemma main_returned_events:
  assumes "ending (main w g) = Returned" and "load_testcases w g = Inr tcs" and "tcs \<noteq> []"
  shows "events (main w g) = Compile # map (Execute \<circ> fst) (py_sorted tcs)"
proof -
  from assms(1) have c: "compile_code w g = Returned"
    by (cases "compile_code w g") (simp_all add: main_def)
  obtain evs x where r: "run_tests (run_executable w (EXECUTABLE g)) (py_sorted tcs) 0 = (evs, x)"
    by (cases "run_tests (run_executable w (EXECUTABLE g)) (py_sorted tcs) 0")
  with assms c obtain q where "x = Inr q"
    by (cases x) (simp_all add: main_def Let_def)
  with r run_tests_events have "evs = map (Execute \<circ> fst) (py_sorted tcs)" by blast
  with main_events [OF c assms(2,3)] r show ?thesis by simp
qed

lemma ten_precedes_two:
  assumes ks: "sorted ks" and ten: "lit ''10'' \<in> set ks"
    and j: "j < length ks" "ks ! j = lit ''2''"
  shows "\<exists>i < j. ks ! i = lit ''10''"
proof -
  from ten obtain i where i: "i < length ks" "ks ! i = lit ''10''" by (auto simp: in_set_conv_nth)
  have "i < j"
  proof (rule ccontr)
    assume "\<not> i < j"
    then have "j \<le> i" by simp
    from sorted_nth_mono [OF ks this i(1)] have "lit ''2'' \<le> lit ''10''" by (simp add: i j)
    with ten_before_two(2) show False by simp
  qed
  with i show ?thesis by blast
qed

lemma two_after_ten_events:
  assumes ks: "sorted (map fst S)" and ten: "lit ''10'' \<in> set (map fst S)"
    and ev: "evs = Compile # map (Execute \<circ> fst) (take m S)"
  shows "\<forall>j < length evs. evs ! j = Execute (lit ''2'') \<longrightarrow>
           (\<exists>i < j. evs ! i = Execute (lit ''10''))"
proof (intro allI impI)
  fix j assume j: "j < length evs" and e: "evs ! j = Execute (lit ''2'')"
  from e ev obtain j' where j': "j = Suc j'" by (cases j) auto
  with j ev have b: "j' < m" "j' < length S" by simp_all
  with e ev j' have "map fst S ! j' = lit ''2''" by simp
  with ten_precedes_two [OF ks ten, of j'] b obtain i where
    i: "i < j'" "map fst S ! i = lit ''10''" by auto
  with b ev have "evs ! Suc i = Execute (lit ''10'')" by simp
  with i(1) j' show "\<exists>i < j. evs ! i = Execute (lit ''10'')" by auto
qed

lemma main_events_shape:
  assumes "load_testcases w g = Inr tcs"
  shows "\<exists>m. events (main w g) = Compile # map (Execute \<circ> fst) (take m (py_sorted tcs))"
proof (cases "compile_code w g = Returned \<and> tcs \<noteq> []")
  case True
  with main_events [of w g tcs] assms show ?thesis
    by (simp only: run_tests_executed) blast
next
  case False
  then have "events (main w g) = [Compile]"
    using assms by (cases "compile_code w g") (auto simp: main_def)
  then show ?thesis by (intro exI [of _ 0]) simp
qed

text \<open>
  Claim C10. The text-pair loader gives the \<open>i\<close>-th case of the two files the
  identifier \<open>str(i)\<close>, counting from 1, so the identifiers are \<open>"1"\<close> to \<open>"n"\<close> in
  the order of the files. The main loop runs the testcases in the order of \<open>sorted\<close>,
  which compares the identifiers as strings, up to and including the first one on which
  \<open>run_test\<close> raises. With ten or more cases that order is not the order of the files:
  \<open>"10"\<close> comes before \<open>"2"\<close>, and in every run case \<open>"2"\<close> is executed only after
  case \<open>"10"\<close>.
\<close>

theorem text_pair_ids_and_order:
  assumes "TC_FILE g = None" and "TXT_INPUT_FILE g = Some txt_in"
    and "TXT_OUTPUT_FILE g = Some txt_out"
    and "read_text w (path_of w txt_in) = Inr fin" and "read_text w (path_of w txt_out) = Inr fout"
    and "load_testcases w g = Inr tcs"
  shows "length tcs = length (split_blank [] (py_strip fin)) \<and>
         length tcs = length (split_blank [] (py_strip fout)) \<and> 0 < length tcs \<and>
         (\<forall>i < length tcs.
            tcs ! i =
              (str_nat (Suc i),
               \<lparr>tc_input = Text (py_strip (split_blank [] (py_strip fin) ! i)),
                tc_output = Text (py_strip (split_blank [] (py_strip fout) ! i))\<rparr>)) \<and>
         map fst tcs = map str_nat [1..<Suc (length tcs)] \<and>
         sorted (map fst (py_sorted tcs)) \<and> set (py_sorted tcs) = set tcs \<and>
         length (py_sorted tcs) = length tcs \<and>
         (compile_code w g = Returned \<longrightarrow>
            events (main w g) =
              Compile #
              map (Execute \<circ> fst)
                (take (Suc (length (takeWhile
                          (\<lambda>kt. \<not> isl (run_test (run_executable w (EXECUTABLE g)) (snd kt)))
                          (py_sorted tcs))))
                   (py_sorted tcs))) \<and>
         (ending (main w g) = Returned \<longrightarrow>
            events (main w g) = Compile # map (Execute \<circ> fst) (py_sorted tcs)) \<and>
         (10 \<le> length tcs \<longrightarrow>
            map fst (py_sorted tcs) \<noteq> map fst tcs \<and>
            (\<exists>i j. i < j \<and> j < length tcs \<and>
               map fst (py_sorted tcs) ! i = lit ''10'' \<and>
               map fst (py_sorted tcs) ! j = lit ''2'') \<and>
            (ending (main w g) = Returned \<longrightarrow>
               events (main w g) \<noteq> Compile # map (Execute \<circ> fst) tcs) \<and>
            (\<forall>j < length (events (main w g)).
               events (main w g) ! j = Execute (lit ''2'') \<longrightarrow>
               (\<exists>i < j. events (main w g) ! i = Execute (lit ''10''))))"
proof -
  let ?ins = "split_blank [] (py_strip fin)" and ?outs = "split_blank [] (py_strip fout)"
  let ?ks = "map fst (py_sorted tcs)"
  from load_text_pair [OF assms] have eq: "length ?ins = length ?outs"
    and tcs: "tcs = enumerate_pairs 1 (zip ?ins ?outs) []" by simp_all
  from enumerate_pairs_nth [of "zip ?ins ?outs"] eq
  have len: "length tcs = length ?ins"
    and nth: "\<forall>i < length tcs.
            tcs ! i = (str_nat (Suc i), \<lparr>tc_input = Text (py_strip (?ins ! i)),
                                         tc_output = Text (py_strip (?outs ! i))\<rparr>)"
    by (simp_all add: tcs)
  have pos: "0 < length tcs" using split_blank_nonempty [of "[]" "py_strip fin"] by (simp add: len)
  then have ne: "tcs \<noteq> []" by auto
  from nth have "\<forall>i < length tcs. fst (tcs ! i) = str_nat (Suc i)" by simp
  then have keys: "map fst tcs = map str_nat [1..<Suc (length tcs)]" by (rule keys_of_nth)
  have srt: "sorted ?ks" "set (py_sorted tcs) = set tcs" "length (py_sorted tcs) = length tcs"
    by (simp_all add: py_sorted_def)
  have ev: "events (main w g) =
              Compile #
              map (Execute \<circ> fst)
                (take (Suc (length (takeWhile
                          (\<lambda>kt. \<not> isl (run_test (run_executable w (EXECUTABLE g)) (snd kt)))
                          (py_sorted tcs))))
                   (py_sorted tcs))"
    if "compile_code w g = Returned"
    using main_events [OF that assms(6) ne] by (simp only: run_tests_executed)
  have full: "events (main w g) = Compile # map (Execute \<circ> fst) (py_sorted tcs)"
    if "ending (main w g) = Returned"
    using that assms(6) ne by (rule main_returned_events)
  have big: "?ks \<noteq> map fst tcs \<and>
            (\<exists>i j. i < j \<and> j < length tcs \<and> ?ks ! i = lit ''10'' \<and> ?ks ! j = lit ''2'') \<and>
            (ending (main w g) = Returned \<longrightarrow>
               events (main w g) \<noteq> Compile # map (Execute \<circ> fst) tcs) \<and>
            (\<forall>j < length (events (main w g)).
               events (main w g) ! j = Execute (lit ''2'') \<longrightarrow>
               (\<exists>i < j. events (main w g) ! i = Execute (lit ''10'')))"
    if n: "10 \<le> length tcs"
  proof (intro conjI impI)
    have "set ?ks = set (map fst tcs)" by (simp add: py_sorted_def)
    also have "\<dots> = set (map str_nat [1..<Suc (length tcs)])" by (simp only: keys)
    also have "\<dots> = str_nat ` {1..<Suc (length tcs)}" by (simp only: set_map set_upt)
    finally have set_ks: "set ?ks = str_nat ` {1..<Suc (length tcs)}" .
    from n have "lit ''10'' \<in> set ?ks" "lit ''2'' \<in> set ?ks"
      unfolding set_ks by (auto simp flip: str_nat_10 str_nat_2)
    from sorted_keys_ten_two [OF srt(1) this]
    show "\<exists>i j. i < j \<and> j < length tcs \<and> ?ks ! i = lit ''10'' \<and> ?ks ! j = lit ''2''"
      by (simp add: py_sorted_def)
    show diff: "?ks \<noteq> map fst tcs"
    proof
      assume "?ks = map fst tcs"
      with srt(1) keys have "sorted (map str_nat [1..<Suc (length tcs)])" by simp
      with positional_keys_not_sorted [OF n] show False by simp
    qed
    from main_events_shape [OF assms(6)] obtain m where
      "events (main w g) = Compile # map (Execute \<circ> fst) (take m (py_sorted tcs))" by blast
    from two_after_ten_events [OF srt(1) \<open>lit ''10'' \<in> set ?ks\<close> this]
    show "\<forall>j < length (events (main w g)).
               events (main w g) ! j = Execute (lit ''2'') \<longrightarrow>
               (\<exists>i < j. events (main w g) ! i = Execute (lit ''10''))" .
    show "events (main w g) \<noteq> Compile # map (Execute \<circ> fst) tcs"
      if r: "ending (main w g) = Returned"
    proof
      assume "events (main w g) = Compile # map (Execute \<circ> fst) tcs"
      with full [OF r] have "map (Execute \<circ> fst) (py_sorted tcs) = map (Execute \<circ> fst) tcs"
        by simp
      then have "map Execute ?ks = map Execute (map fst tcs)" by (simp only: map_map)
      then have "?ks = map fst tcs" by (rule map_injective) (simp add: inj_on_def)
      with diff show False by simp
    qed
  qed
  from len eq pos nth keys srt ev full big show ?thesis by simp
qed


theorem text_pair_ids_and_order_witness:
  "TC_FILE text_config = None \<and> TXT_INPUT_FILE text_config = Some (lit ''in.txt'') \<and>
   TXT_OUTPUT_FILE text_config = Some (lit ''out.txt'') \<and>
   read_text world_text (path_of world_text (lit ''in.txt'')) = Inr ten_inputs \<and>
   read_text world_text (path_of world_text (lit ''out.txt'')) = Inr ten_outputs \<and>
   compile_code world_text text_config = Returned \<and>
   ending (main world_text text_config) = Returned \<and>
   (\<exists>tcs. load_testcases world_text text_config = Inr tcs \<and> length tcs = 10 \<and>
      tcs ! 9 = (lit ''10'', \<lparr>tc_input = Text (lit ''10''), tc_output = Text (lit ''42'')\<rparr>) \<and>
      map fst tcs = map str_nat [1..<Suc (length tcs)] \<and>
      map fst (py_sorted tcs) \<noteq> map fst tcs \<and>
      events (main world_text text_config) = Compile # map (Execute \<circ> fst) (py_sorted tcs) \<and>
      events (main world_text text_config) \<noteq> Compile # map (Execute \<circ> fst) tcs) \<and>
   events (main world_text text_config) =
     [Compile, Execute (lit ''1''), Execute (lit ''10''), Execute (lit ''2''),
      Execute (lit ''3''), Execute (lit ''4''), Execute (lit ''5''), Execute (lit ''6''),
      Execute (lit ''7''), Execute (lit ''8''), Execute (lit ''9'')]"
proof -
  note defs = world_text_def text_config_def ten_inputs_def ten_outputs_def example_defs
    eval_defs Let_def
  have 1: "TC_FILE text_config = None" by (simp add: text_config_def)
  have 2: "TXT_INPUT_FILE text_config = Some (lit ''in.txt'')" by (simp add: text_config_def)
  have 3: "TXT_OUTPUT_FILE text_config = Some (lit ''out.txt'')" by (simp add: text_config_def)
  have 4: "read_text world_text (path_of world_text (lit ''in.txt'')) = Inr ten_inputs"
    by (simp add: world_text_def base_world_def)
  have 5: "read_text world_text (path_of world_text (lit ''out.txt'')) = Inr ten_outputs"
    by (simp add: world_text_def base_world_def lit_def)
  have 6: "compile_code world_text text_config = Returned" by (simp add: defs)
  have 7: "ending (main world_text text_config) = Returned" by (simp add: defs str_nat.simps)
  have "\<exists>tcs. load_testcases world_text text_config = Inr tcs \<and> length tcs = 10"
    by (simp add: defs str_nat.simps)
  then obtain tcs where 8: "load_testcases world_text text_config = Inr tcs"
    and 9: "length tcs = 10" by blast
  have 0: "10 \<le> length tcs" "9 < length tcs" by (simp_all add: 9)
  have s: "py_strip (split_blank [] (py_strip ten_inputs) ! 9) = lit ''10''"
    "py_strip (split_blank [] (py_strip ten_outputs) ! 9) = lit ''42''"
    by (simp_all add: ten_inputs_def ten_outputs_def py_strip_def py_isspace_def lit_def)
  have t: "str_nat (Suc 9) = lit ''10''" using str_nat_10 by simp
  note T = text_pair_ids_and_order [OF 1 2 3 4 5 8]
  from T have nth: "\<forall>i < length tcs.
            tcs ! i =
              (str_nat (Suc i),
               \<lparr>tc_input = Text (py_strip (split_blank [] (py_strip ten_inputs) ! i)),
                tc_output = Text (py_strip (split_blank [] (py_strip ten_outputs) ! i))\<rparr>)"
    apply (elim conjE) apply assumption done
  have "tcs ! 9 =
              (str_nat (Suc 9),
               \<lparr>tc_input = Text (py_strip (split_blank [] (py_strip ten_inputs) ! 9)),
                tc_output = Text (py_strip (split_blank [] (py_strip ten_outputs) ! 9))\<rparr>)"
    using spec [OF nth, of 9] by (simp only: 0 simp_thms)
  then have a: "tcs ! 9 = (lit ''10'', \<lparr>tc_input = Text (lit ''10''), tc_output = Text (lit ''42'')\<rparr>)"
    by (simp only: s t)
  from T have b: "map fst tcs = map str_nat [1..<Suc (length tcs)]"
    apply (elim conjE) apply assumption done
  from T have full: "ending (main world_text text_config) = Returned \<longrightarrow>
            events (main world_text text_config) =
              Compile # map (Execute \<circ> fst) (py_sorted tcs)"
    apply (elim conjE) apply assumption done
  from full 7 have d: "events (main world_text text_config) =
              Compile # map (Execute \<circ> fst) (py_sorted tcs)" by (rule mp)
  from T have big: "10 \<le> length tcs \<longrightarrow>
            map fst (py_sorted tcs) \<noteq> map fst tcs \<and>
            (\<exists>i j. i < j \<and> j < length tcs \<and>
               map fst (py_sorted tcs) ! i = lit ''10'' \<and>
               map fst (py_sorted tcs) ! j = lit ''2'') \<and>
            (ending (main world_text text_config) = Returned \<longrightarrow>
               events (main world_text text_config) \<noteq> Compile # map (Execute \<circ> fst) tcs) \<and>
            (\<forall>j < length (events (main world_text text_config)).
               events (main world_text text_config) ! j = Execute (lit ''2'') \<longrightarrow>
               (\<exists>i < j. events (main world_text text_config) ! i = Execute (lit ''10'')))"
    apply (elim conjE) apply assumption done
  from big 0(1) have c: "map fst (py_sorted tcs) \<noteq> map fst tcs"
    and e': "ending (main world_text text_config) = Returned \<longrightarrow>
               events (main world_text text_config) \<noteq> Compile # map (Execute \<circ> fst) tcs"
    by simp_all
  from e' 7 have e: "events (main world_text text_config) \<noteq> Compile # map (Execute \<circ> fst) tcs"
    by (rule mp)
  have f: "events (main world_text text_config) =
     [Compile, Execute (lit ''1''), Execute (lit ''10''), Execute (lit ''2''),
      Execute (lit ''3''), Execute (lit ''4''), Execute (lit ''5''), Execute (lit ''6''),
      Execute (lit ''7''), Execute (lit ''8''), Execute (lit ''9'')]"
    by (simp add: defs str_nat.simps)
  from 8 9 a b c d e
  have "\<exists>tcs. load_testcases world_text text_config = Inr tcs \<and> length tcs = 10 \<and>
      tcs ! 9 = (lit ''10'', \<lparr>tc_input = Text (lit ''10''), tc_output = Text (lit ''42'')\<rparr>) \<and>
      map fst tcs = map str_nat [1..<Suc (length tcs)] \<and>
      map fst (py_sorted tcs) \<noteq> map fst tcs \<and>
      events (main world_text text_config) = Compile # map (Execute \<circ> fst) (py_sorted tcs) \<and>
      events (main world_text text_config) \<noteq> Compile # map (Execute \<circ> fst) tcs"
    by (intro exI [of _ tcs] conjI)
  with 1 2 3 4 5 6 7 f show ?thesis by (intro conjI)
qed

section \<open>The codec on ASCII\<close>

text \<open>On seven-bit text, encoding and decoding are the identity.\<close>

lemma utf8_decode_ascii: "\<forall>b \<in> set bs. b < 128 \<Longrightarrow> utf8_decode bs = Some bs"
  by (induction bs) simp_all

lemma utf8_encode_ascii: "\<forall>c \<in> set s. c < 128 \<Longrightarrow> utf8_encode s = Some s"
  by (induction s) simp_all

end
